theory Spec2Isabelle
  imports Main "HOL-Library.Word"
begin

section \<open>Platform pass-through emulator (emulators/pt/platform.c)\<close>

text \<open>
  The emulator talks to the rest of the hypervisor only through calls into other
  subsystems (heap, device tree, host IRQ layer, device registry, IOMMU layer, guest
  emulation layer, notifier chain). The embedding keeps the C control flow of every
  function of \<^verbatim>\<open>platform.c\<close> and makes those calls explicit:
  \<^item> every call into another subsystem is appended, in program order, to a trace
    (\<open>action list\<close>), together with the result the subsystem gave;
  \<^item> the result of a call that the C code inspects is supplied by an environment
    (\<open>vmm_env\<close>); an effectful subsystem may answer differently depending on everything
    that happened before, so its answer is a function of the trace so far; the device-tree
    node is plain input data, so its accessors are functions of the node alone;
  \<^item> a \<^verbatim>\<open>goto\<close> label is a function, and falling through to the next label is a
    call of the next label's function.
\<close>

subsection \<open>Data\<close>

type_synonym u32 = "32 word"

text \<open>\<^verbatim>\<open>physical_addr_t\<close> and \<^verbatim>\<open>physical_size_t\<close>: unsigned machine words; subtraction wraps.\<close>
type_synonym physical_addr_t = "64 word"

text \<open>
  The non-zero values of an \<^verbatim>\<open>int rc\<close>. The four named codes are the ones
  \<^verbatim>\<open>platform.c\<close> itself produces; \<open>VMM_EOTHER\<close> stands for any other non-zero code
  handed up by a subsystem. \<^verbatim>\<open>VMM_OK\<close> (zero) is \<open>Inr ()\<close>.
\<close>
datatype vmm_error = VMM_EFAIL | VMM_EINVALID | VMM_EOVERFLOW | VMM_ENOMEM | VMM_EOTHER nat

type_synonym vmm_rc = "vmm_error + unit"

abbreviation VMM_OK :: vmm_rc where "VMM_OK \<equiv> Inr ()"

datatype vmm_irq_return_t = VMM_IRQ_NONE | VMM_IRQ_HANDLED

datatype notify_ret = NOTIFY_DONE | NOTIFY_OK

text \<open>The \<^verbatim>\<open>evt\<close> argument of a notifier call; only equality with the init event is tested.\<close>
datatype aspace_event = VMM_GUEST_ASPACE_EVENT_INIT | VMM_GUEST_ASPACE_EVENT_OTHER nat

text \<open>The four heap blocks \<^verbatim>\<open>platform_pt_probe\<close> allocates.\<close>
datatype heap_obj = ObjState | ObjHostIrqs | ObjHostTypeIrqs | ObjGuestIrqs

text \<open>A guest, as far as this file reads it: its address (pointer identity) and name.\<close>
record vmm_guest =
  guest_id :: nat
  guest_name :: string

text \<open>A host device: its address and its \<^verbatim>\<open>iommu_group\<close> pointer (\<open>None\<close> is NULL).\<close>
record vmm_device =
  dev_id :: nat
  iommu_group :: "nat option"

text \<open>The region flags the emulator asks for, and any other flag a region may carry.\<close>
datatype region_flag =
  VMM_REGION_REAL | VMM_REGION_MEMORY | VMM_REGION_ISRAM | VMM_REGION_ISHOSTRAM
| VMM_REGION_OTHER nat

text \<open>
  A guest region as read through \<^verbatim>\<open>VMM_REGION_GPHYS_START\<close>, \<^verbatim>\<open>VMM_REGION_GPHYS_END\<close>
  and \<^verbatim>\<open>VMM_REGION_HPHYS_START\<close>.
\<close>
record vmm_region =
  region_flags :: "region_flag set"
  gphys_start :: physical_addr_t
  gphys_end :: physical_addr_t
  hphys_start :: physical_addr_t

datatype iommu_prot = VMM_IOMMU_READ | VMM_IOMMU_WRITE

text \<open>
  A device-tree node as seen through the accessors the emulator uses:
  \<^verbatim>\<open>vmm_devtree_attrlen\<close>, \<^verbatim>\<open>vmm_devtree_read_u32_atindex\<close> (error code, or the value
  stored through the out pointer) and \<^verbatim>\<open>vmm_devtree_read_string\<close> (\<open>None\<close>: the out
  pointer stays NULL).
\<close>
record vmm_devtree_node =
  node_name :: string
  attrlen :: "string \<Rightarrow> u32"
  read_u32_atindex :: "string \<Rightarrow> nat \<Rightarrow> vmm_error + u32"
  read_string :: "string \<Rightarrow> string option"

definition VMM_DEVTREE_INTERRUPTS_ATTR_NAME :: string where
  "VMM_DEVTREE_INTERRUPTS_ATTR_NAME = ''interrupts''"

text \<open>
  \<^verbatim>\<open>struct platform_pt_state\<close>. \<open>name\<close> holds the C string in the 64-byte buffer
  (without its terminating NUL), pointers are options (\<open>None\<close> is NULL), the three arrays
  are the contents of their heap blocks, and \<open>nb\<close> is the notifier block: whether its
  callback is set, and its priority.
\<close>
record platform_pt_state =
  name :: string
  guest :: nat
  irq_count :: u32
  host_irqs :: "u32 list option"
  host_type_irqs :: "u32 list option"
  guest_irqs :: "u32 list option"
  dev :: "vmm_device option"
  dom_p :: "nat option"
  nb_notifier_call :: bool
  nb_priority :: int

record vmm_emudev =
  node :: vmm_devtree_node
  priv :: "platform_pt_state option"

text \<open>One call into another subsystem, with its arguments and (where it has one) its result.\<close>
datatype action =
  VmmZalloc heap_obj bool
| VmmFree heap_obj
| DevtreeAttrlen string u32
| DevtreeReadU32 string nat "vmm_error + u32"
| DevtreeReadString string "string option"
| HostIrqSetType u32 u32 vmm_rc
| HostIrqMarkRouted u32 vmm_rc
| HostIrqUnmarkRouted u32
| HostIrqRegister u32 string vmm_rc
| HostIrqUnregister u32
| BusFindDeviceByName string "vmm_device option"
| DevdrvRefDevice nat
| DevdrvDrefDevice nat
| IommuDomainAlloc nat "nat option"
| IommuSetFaultHandler nat
| IommuDomainFree nat
| IommuMap "nat option" physical_addr_t physical_addr_t physical_addr_t "iommu_prot set"
| GuestAspaceRegisterClient int vmm_rc
| GuestAspaceUnregisterClient
| DevemuEmulateIrq nat u32 int vmm_rc
| DevemuMapHost2GuestIrq nat u32 u32
| GuestIterateRegion nat "region_flag set"
| VmmPrintfEmulateFailed nat u32 int

text \<open>
  The answers of the other subsystems. Each effectful call gets the trace so far, so an
  answer may depend on the whole history (a second claim of the same line may fail, the
  heap may run out after some allocations, and so on).
\<close>
record vmm_env =
  vmm_zalloc :: "action list \<Rightarrow> heap_obj \<Rightarrow> bool"
  vmm_host_irq_set_type :: "action list \<Rightarrow> u32 \<Rightarrow> u32 \<Rightarrow> vmm_rc"
  vmm_host_irq_mark_routed :: "action list \<Rightarrow> u32 \<Rightarrow> vmm_rc"
  vmm_host_irq_register :: "action list \<Rightarrow> u32 \<Rightarrow> string \<Rightarrow> vmm_rc"
  vmm_devdrv_bus_find_device_by_name :: "action list \<Rightarrow> string \<Rightarrow> vmm_device option"
  vmm_iommu_domain_alloc :: "action list \<Rightarrow> nat \<Rightarrow> nat option"
  vmm_guest_aspace_register_client :: "action list \<Rightarrow> vmm_rc"
  vmm_devemu_emulate_irq :: "action list \<Rightarrow> nat \<Rightarrow> u32 \<Rightarrow> int \<Rightarrow> vmm_rc"
  guest_regions :: "nat \<Rightarrow> vmm_region list"

text \<open>
  The arrays of a state built by \<^verbatim>\<open>platform_pt_probe\<close>: NULL when \<open>irq_count\<close> is zero,
  otherwise three blocks of \<open>irq_count\<close> entries each. Outside it the C code would index
  past a block.
\<close>
definition arrays_ok :: "platform_pt_state \<Rightarrow> bool" where
  "arrays_ok s =
     (if irq_count s = 0
      then host_irqs s = None \<and> host_type_irqs s = None \<and> guest_irqs s = None
      else host_irqs s \<noteq> None \<and> host_type_irqs s \<noteq> None \<and> guest_irqs s \<noteq> None
           \<and> length (the (host_irqs s)) = unat (irq_count s)
           \<and> length (the (host_type_irqs s)) = unat (irq_count s)
           \<and> length (the (guest_irqs s)) = unat (irq_count s))"

subsection \<open>platform_pt_routed_irq\<close>

text \<open>
  The search loop of lines 66--73, entered with loop variable \<open>i\<close>; the result is the pair
  (\<open>found\<close>, \<open>guest_irq\<close>) at the loop's exit. \<open>i\<close> stays below \<open>irq_count\<close>, so the
  \<^verbatim>\<open>u32\<close> increment never wraps.
\<close>
function find_guest_irq :: "platform_pt_state \<Rightarrow> u32 \<Rightarrow> nat \<Rightarrow> bool \<times> u32" where
  "find_guest_irq s host_irq i =
     (if i < unat (irq_count s) then
        (if the (host_irqs s) ! i = host_irq then (True, the (guest_irqs s) ! i)
         else find_guest_irq s host_irq (Suc i))
      else (False, 0))"
  by pat_completeness auto
termination
  by (relation "measure (\<lambda>(s, h, i). unat (irq_count s) - i)") auto

declare find_guest_irq.simps [simp del]

text \<open>One \<^verbatim>\<open>vmm_devemu_emulate_irq\<close> call followed by its failure message, if any.\<close>
definition emulate_irq_logged :: "vmm_env \<Rightarrow> nat \<Rightarrow> u32 \<Rightarrow> int \<Rightarrow> action list \<Rightarrow> action list" where
  "emulate_irq_logged env g guest_irq level tr =
     (let rc = vmm_devemu_emulate_irq env tr g guest_irq level;
          tr1 = tr @ [DevemuEmulateIrq g guest_irq level rc]
      in if rc \<noteq> VMM_OK then tr1 @ [VmmPrintfEmulateFailed g guest_irq level] else tr1)"

text \<open>
  \<^verbatim>\<open>platform_pt_routed_irq(irq, dev)\<close>: \<open>irq\<close> is the C \<^verbatim>\<open>int\<close>, converted to \<^verbatim>\<open>u32\<close>
  on assignment to \<open>host_irq\<close>.
\<close>
definition platform_pt_routed_irq ::
  "vmm_env \<Rightarrow> int \<Rightarrow> platform_pt_state \<Rightarrow> action list \<Rightarrow> vmm_irq_return_t \<times> action list" where
  "platform_pt_routed_irq env irq s tr =
     (let host_irq = (word_of_int irq :: u32);
          (found, guest_irq) = find_guest_irq s host_irq 0
      in if \<not> found then (VMM_IRQ_HANDLED, tr)
         else
           let tr1 = emulate_irq_logged env (guest s) guest_irq 0 tr;
               tr2 = emulate_irq_logged env (guest s) guest_irq 1 tr1
           in (VMM_IRQ_HANDLED, tr2))"

text \<open>
  The \<^verbatim>\<open>vmm_devemu_emulate_irq\<close> calls of a trace, in order, as (guest, guest line, level).
\<close>
fun emulate_calls :: "action list \<Rightarrow> (nat \<times> u32 \<times> int) list" where
  "emulate_calls [] = []"
| "emulate_calls (DevemuEmulateIrq g q l rc # as) = (g, q, l) # emulate_calls as"
| "emulate_calls (a # as) = emulate_calls as"

subsection \<open>platform_pt_iter and platform_pt_guest_aspace_notification\<close>

text \<open>\<^verbatim>\<open>platform_pt_iter\<close>: one \<^verbatim>\<open>vmm_iommu_map\<close> call; its result is not looked at.\<close>
definition platform_pt_iter :: "platform_pt_state \<Rightarrow> vmm_region \<Rightarrow> action list \<Rightarrow> action list" where
  "platform_pt_iter s reg tr =
     tr @ [IommuMap (dom_p s) (gphys_start reg) (hphys_start reg)
             (gphys_end reg - gphys_start reg) {VMM_IOMMU_READ, VMM_IOMMU_WRITE}]"

text \<open>
  Modelled from the spec: \<^verbatim>\<open>vmm_guest_iterate_region\<close> is not part of this file. The
  spec's words are "iterate every guest memory region flagged as ...; for each, install
  ...": the callback runs once on every region of the guest that carries all the requested
  flags, in the guest's region order.
\<close>
definition vmm_guest_iterate_region ::
  "vmm_env \<Rightarrow> nat \<Rightarrow> region_flag set \<Rightarrow> (vmm_region \<Rightarrow> action list \<Rightarrow> action list)
     \<Rightarrow> action list \<Rightarrow> action list" where
  "vmm_guest_iterate_region env g flags func tr =
     foldl (\<lambda>t reg. func reg t)
       (tr @ [GuestIterateRegion g flags])
       (filter (\<lambda>reg. flags \<subseteq> region_flags reg) (guest_regions env g))"

text \<open>The loop of lines 158--162, entered with loop variable \<open>i\<close>.\<close>
function map_host2guest_irqs :: "platform_pt_state \<Rightarrow> nat \<Rightarrow> action list \<Rightarrow> action list" where
  "map_host2guest_irqs s i tr =
     (if i < unat (irq_count s) then
        map_host2guest_irqs s (Suc i)
          (tr @ [DevemuMapHost2GuestIrq (guest s) (the (guest_irqs s) ! i) (the (host_irqs s) ! i)])
      else tr)"
  by pat_completeness auto
termination
  by (relation "measure (\<lambda>(s, i, tr). unat (irq_count s) - i)") auto

declare map_host2guest_irqs.simps [simp del]

text \<open>
  \<^verbatim>\<open>platform_pt_guest_aspace_notification(nb, evt, data)\<close>: \<open>s\<close> is the state that contains
  \<open>nb\<close>, \<open>edata_guest\<close> is \<^verbatim>\<open>edata->guest\<close>. The function does not write to the state.
\<close>
definition platform_pt_guest_aspace_notification ::
  "vmm_env \<Rightarrow> platform_pt_state \<Rightarrow> aspace_event \<Rightarrow> nat \<Rightarrow> action list \<Rightarrow> notify_ret \<times> action list" where
  "platform_pt_guest_aspace_notification env s evt edata_guest tr =
     (if evt \<noteq> VMM_GUEST_ASPACE_EVENT_INIT then (NOTIFY_DONE, tr)
      else if guest s \<noteq> edata_guest then (NOTIFY_DONE, tr)
      else
        let tr1 = map_host2guest_irqs s 0 tr;
            tr2 = (if dom_p s \<noteq> None then
                     vmm_guest_iterate_region env (guest s)
                       {VMM_REGION_REAL, VMM_REGION_MEMORY, VMM_REGION_ISRAM, VMM_REGION_ISHOSTRAM}
                       (platform_pt_iter s) tr1
                   else tr1)
        in (NOTIFY_OK, tr2))"

subsection \<open>Teardown shared by platform_pt_probe and platform_pt_remove\<close>

text \<open>
  The loop of lines 321--324 (bound \<open>irq_reg_count\<close>) and of lines 358--361 (bound
  \<open>irq_count\<close>), entered with loop variable \<open>i\<close>.
\<close>
function unregister_irqs :: "platform_pt_state \<Rightarrow> nat \<Rightarrow> nat \<Rightarrow> action list \<Rightarrow> action list" where
  "unregister_irqs s n i tr =
     (if i < n then
        unregister_irqs s n (Suc i)
          (tr @ [HostIrqUnregister (the (host_irqs s) ! i), HostIrqUnmarkRouted (the (host_irqs s) ! i)])
      else tr)"
  by pat_completeness auto
termination
  by (relation "measure (\<lambda>(s, n, i, tr). n - i)") auto

declare unregister_irqs.simps [simp del]

text \<open>\<^verbatim>\<open>if (p) vmm_free(p)\<close> for one of the three arrays.\<close>
definition free_if_set :: "u32 list option \<Rightarrow> heap_obj \<Rightarrow> action list \<Rightarrow> action list" where
  "free_if_set p obj tr = (if p \<noteq> None then tr @ [VmmFree obj] else tr)"

subsection \<open>platform_pt_remove\<close>

definition platform_pt_remove :: "vmm_emudev \<Rightarrow> action list \<Rightarrow> vmm_rc \<times> vmm_emudev \<times> action list" where
  "platform_pt_remove edev tr =
     (case priv edev of
        None \<Rightarrow> (Inl VMM_EFAIL, edev, tr)
      | Some s \<Rightarrow>
          let tr1 = tr @ [GuestAspaceUnregisterClient];
              tr2 = (case dom_p s of Some d \<Rightarrow> tr1 @ [IommuDomainFree d] | None \<Rightarrow> tr1);
              tr3 = (case dev s of Some d \<Rightarrow> tr2 @ [DevdrvDrefDevice (dev_id d)] | None \<Rightarrow> tr2);
              tr4 = unregister_irqs s (unat (irq_count s)) 0 tr3;
              tr5 = free_if_set (guest_irqs s) ObjGuestIrqs tr4;
              tr6 = free_if_set (host_type_irqs s) ObjHostTypeIrqs tr5;
              tr7 = free_if_set (host_irqs s) ObjHostIrqs tr6;
              tr8 = tr7 @ [VmmFree ObjState]
          in (VMM_OK, edev\<lparr>priv := None\<rparr>, tr8))"

subsection \<open>platform_pt_probe\<close>

text \<open>
  \<^verbatim>\<open>strlcpy\<close> and \<^verbatim>\<open>strlcat\<close> belong to the hypervisor's string library, not to this
  file. They are modelled by their documented contract: at most \<open>count - 1\<close> bytes end up in
  the destination, which stays NUL-terminated, and the value returned is the length of the
  string the call tried to create (\<open>strlen(src)\<close>, respectively \<open>strlen(dest) + strlen(src)\<close>).
  The result is (new destination contents, returned length). \<^verbatim>\<open>strlcat\<close> is only
  called here with \<open>strlen(dest) < count\<close>.
\<close>
definition strlcpy :: "string \<Rightarrow> string \<Rightarrow> nat \<Rightarrow> string \<times> nat" where
  "strlcpy dest src count = ((if count = 0 then dest else take (count - 1) src), length src)"

definition strlcat :: "string \<Rightarrow> string \<Rightarrow> nat \<Rightarrow> string \<times> nat" where
  "strlcat dest src count = (dest @ take (count - length dest - 1) src, length dest + length src)"

text \<open>\<^verbatim>\<open>sizeof(s->name)\<close>\<close>
definition name_size :: nat where
  "name_size = 64"

text \<open>The state block as \<^verbatim>\<open>vmm_zalloc\<close> returns it: all bytes zero.\<close>
definition zeroed_state :: platform_pt_state where
  "zeroed_state = \<lparr>name = [], guest = 0, irq_count = 0, host_irqs = None, host_type_irqs = None,
     guest_irqs = None, dev = None, dom_p = None, nb_notifier_call = False, nb_priority = 0\<rparr>"

type_synonym probe_result = "vmm_rc \<times> vmm_emudev \<times> action list"

text \<open>The labels at the end of \<^verbatim>\<open>platform_pt_probe\<close>, last one first; \<open>rc\<close> is the error to return.\<close>

definition platform_pt_probe_freestate_fail :: "vmm_error \<Rightarrow> vmm_emudev \<Rightarrow> action list \<Rightarrow> probe_result" where
  "platform_pt_probe_freestate_fail rc edev tr = (Inl rc, edev, tr @ [VmmFree ObjState])"

definition platform_pt_probe_freehirqs_fail ::
  "vmm_error \<Rightarrow> platform_pt_state \<Rightarrow> vmm_emudev \<Rightarrow> action list \<Rightarrow> probe_result" where
  "platform_pt_probe_freehirqs_fail rc s edev tr =
     platform_pt_probe_freestate_fail rc edev (free_if_set (host_irqs s) ObjHostIrqs tr)"

definition platform_pt_probe_freehtirqs_fail ::
  "vmm_error \<Rightarrow> platform_pt_state \<Rightarrow> vmm_emudev \<Rightarrow> action list \<Rightarrow> probe_result" where
  "platform_pt_probe_freehtirqs_fail rc s edev tr =
     platform_pt_probe_freehirqs_fail rc s edev (free_if_set (host_type_irqs s) ObjHostTypeIrqs tr)"

definition platform_pt_probe_cleanupirqs_fail ::
  "vmm_error \<Rightarrow> platform_pt_state \<Rightarrow> nat \<Rightarrow> vmm_emudev \<Rightarrow> action list \<Rightarrow> probe_result" where
  "platform_pt_probe_cleanupirqs_fail rc s irq_reg_count edev tr =
     platform_pt_probe_freehtirqs_fail rc s edev
       (free_if_set (guest_irqs s) ObjGuestIrqs (unregister_irqs s irq_reg_count 0 tr))"

definition platform_pt_probe_dref_dev_fail ::
  "vmm_error \<Rightarrow> platform_pt_state \<Rightarrow> nat \<Rightarrow> vmm_emudev \<Rightarrow> action list \<Rightarrow> probe_result" where
  "platform_pt_probe_dref_dev_fail rc s irq_reg_count edev tr =
     platform_pt_probe_cleanupirqs_fail rc s irq_reg_count edev
       (case dev s of Some d \<Rightarrow> tr @ [DevdrvDrefDevice (dev_id d)] | None \<Rightarrow> tr)"

definition platform_pt_probe_free_dom_fail ::
  "vmm_error \<Rightarrow> platform_pt_state \<Rightarrow> nat \<Rightarrow> vmm_emudev \<Rightarrow> action list \<Rightarrow> probe_result" where
  "platform_pt_probe_free_dom_fail rc s irq_reg_count edev tr =
     platform_pt_probe_dref_dev_fail rc s irq_reg_count edev
       (case dom_p s of Some d \<Rightarrow> tr @ [IommuDomainFree d] | None \<Rightarrow> tr)"

text \<open>
  Lines 228--247: the three device-tree reads of loop iteration \<open>i\<close>. A value is stored
  in its array slot when its read succeeds. The indices \<open>i*2\<close> and \<open>i*2 + 1\<close> stay below
  \<open>2^30\<close> (\<open>irq_count\<close> is a byte length divided by 8), so the \<^verbatim>\<open>u32\<close> arithmetic
  does not wrap.
\<close>
definition probe_read_irqs ::
  "vmm_devtree_node \<Rightarrow> platform_pt_state \<Rightarrow> nat \<Rightarrow> action list
     \<Rightarrow> vmm_rc \<times> platform_pt_state \<times> action list" where
  "probe_read_irqs nd s i tr =
     (let r1 = read_u32_atindex nd ''host-interrupts'' (i * 2);
          tr1 = tr @ [DevtreeReadU32 ''host-interrupts'' (i * 2) r1]
      in case r1 of
           Inl e \<Rightarrow> (Inl e, s, tr1)
         | Inr h \<Rightarrow>
             let s1 = s\<lparr>host_irqs := map_option (\<lambda>xs. xs[i := h]) (host_irqs s)\<rparr>;
                 r2 = read_u32_atindex nd ''host-interrupts'' (i * 2 + 1);
                 tr2 = tr1 @ [DevtreeReadU32 ''host-interrupts'' (i * 2 + 1) r2]
             in case r2 of
                  Inl e \<Rightarrow> (Inl e, s1, tr2)
                | Inr t \<Rightarrow>
                    let s2 = s1\<lparr>host_type_irqs := map_option (\<lambda>xs. xs[i := t]) (host_type_irqs s1)\<rparr>;
                        r3 = read_u32_atindex nd VMM_DEVTREE_INTERRUPTS_ATTR_NAME i;
                        tr3 = tr2 @ [DevtreeReadU32 VMM_DEVTREE_INTERRUPTS_ATTR_NAME i r3]
                    in case r3 of
                         Inl e \<Rightarrow> (Inl e, s2, tr3)
                       | Inr q \<Rightarrow>
                           (VMM_OK,
                            s2\<lparr>guest_irqs := map_option (\<lambda>xs. xs[i := q]) (guest_irqs s2)\<rparr>,
                            tr3))"

text \<open>
  Lines 249--265: the three host-IRQ calls of loop iteration \<open>i\<close>: set the trigger type,
  mark the line routed, register the handler. Only a failed registration is followed by a
  call on the same line (\<^verbatim>\<open>vmm_host_irq_unmark_routed\<close>).
\<close>
definition probe_register_irq ::
  "vmm_env \<Rightarrow> platform_pt_state \<Rightarrow> nat \<Rightarrow> action list \<Rightarrow> vmm_rc \<times> action list" where
  "probe_register_irq env s i tr =
     (let h = the (host_irqs s) ! i;
          t = the (host_type_irqs s) ! i;
          rc1 = vmm_host_irq_set_type env tr h t;
          tr1 = tr @ [HostIrqSetType h t rc1]
      in case rc1 of
           Inl e \<Rightarrow> (Inl e, tr1)
         | Inr _ \<Rightarrow>
             let rc2 = vmm_host_irq_mark_routed env tr1 h;
                 tr2 = tr1 @ [HostIrqMarkRouted h rc2]
             in case rc2 of
                  Inl e \<Rightarrow> (Inl e, tr2)
                | Inr _ \<Rightarrow>
                    let rc3 = vmm_host_irq_register env tr2 h (name s);
                        tr3 = tr2 @ [HostIrqRegister h (name s) rc3]
                    in case rc3 of
                         Inl e \<Rightarrow> (Inl e, tr3 @ [HostIrqUnmarkRouted h])
                       | Inr _ \<Rightarrow> (VMM_OK, tr3))"

text \<open>
  The loop of lines 227--268, entered with loop variable \<open>i\<close> and counter
  \<open>irq_reg_count\<close>. On a failure (a \<^verbatim>\<open>goto platform_pt_probe_cleanupirqs_fail\<close>) the
  result carries the error, the state and the counter as they are at the jump.
\<close>
function probe_irq_loop ::
  "vmm_env \<Rightarrow> vmm_devtree_node \<Rightarrow> platform_pt_state \<Rightarrow> nat \<Rightarrow> nat \<Rightarrow> action list
     \<Rightarrow> vmm_rc \<times> platform_pt_state \<times> nat \<times> action list" where
  "probe_irq_loop env nd s i irq_reg_count tr =
     (if i < unat (irq_count s) then
        (case probe_read_irqs nd s i tr of
           (Inl e, s1, tr1) \<Rightarrow> (Inl e, s1, irq_reg_count, tr1)
         | (Inr _, s1, tr1) \<Rightarrow>
             (case probe_register_irq env s1 i tr1 of
                (Inl e, tr2) \<Rightarrow> (Inl e, s1, irq_reg_count, tr2)
              | (Inr _, tr2) \<Rightarrow> probe_irq_loop env nd s1 (Suc i) (Suc irq_reg_count) tr2))
      else (VMM_OK, s, irq_reg_count, tr))"
  by pat_completeness auto
termination
  by (relation "measure (\<lambda>(env, nd, s, i, c, tr). unat (irq_count s) - i)")
     (auto simp: probe_read_irqs_def Let_def split: sum.splits)

declare probe_irq_loop.simps [simp del]

text \<open>Lines 301--310: subscribe to the aspace events and attach the state to the device.\<close>
definition probe_subscribe ::
  "vmm_env \<Rightarrow> vmm_emudev \<Rightarrow> platform_pt_state \<Rightarrow> nat \<Rightarrow> action list \<Rightarrow> probe_result" where
  "probe_subscribe env edev s irq_reg_count tr =
     (let s1 = s\<lparr>nb_notifier_call := True, nb_priority := 0\<rparr>;
          rc = vmm_guest_aspace_register_client env tr;
          tr1 = tr @ [GuestAspaceRegisterClient (nb_priority s1) rc]
      in case rc of
           Inl e \<Rightarrow> platform_pt_probe_free_dom_fail e s1 irq_reg_count edev tr1
         | Inr _ \<Rightarrow> (VMM_OK, edev\<lparr>priv := Some s1\<rparr>, tr1))"

text \<open>Lines 270--299: the optional IOMMU device and its domain.\<close>
definition probe_iommu ::
  "vmm_env \<Rightarrow> vmm_emudev \<Rightarrow> platform_pt_state \<Rightarrow> nat \<Rightarrow> action list \<Rightarrow> probe_result" where
  "probe_iommu env edev s irq_reg_count tr =
     (let iommu_device = read_string (node edev) ''iommu-device'';
          tr1 = tr @ [DevtreeReadString ''iommu-device'' iommu_device]
      in case iommu_device of
           None \<Rightarrow> probe_subscribe env edev s irq_reg_count tr1
         | Some dname \<Rightarrow>
             let d = vmm_devdrv_bus_find_device_by_name env tr1 dname;
                 tr2 = tr1 @ [BusFindDeviceByName dname d];
                 s1 = s\<lparr>dev := d\<rparr>
             in case d of
                  None \<Rightarrow> platform_pt_probe_cleanupirqs_fail VMM_EINVALID s1 irq_reg_count edev tr2
                | Some dv \<Rightarrow>
                    (case iommu_group dv of
                       None \<Rightarrow>
                         platform_pt_probe_cleanupirqs_fail VMM_EINVALID s1 irq_reg_count edev tr2
                     | Some grp \<Rightarrow>
                         let tr3 = tr2 @ [DevdrvRefDevice (dev_id dv)];
                             dm = vmm_iommu_domain_alloc env tr3 grp;
                             tr4 = tr3 @ [IommuDomainAlloc grp dm];
                             s2 = s1\<lparr>dom_p := dm\<rparr>
                         in case dm of
                              None \<Rightarrow>
                                platform_pt_probe_dref_dev_fail VMM_EFAIL s2 irq_reg_count edev tr4
                            | Some dmn \<Rightarrow>
                                probe_subscribe env edev s2 irq_reg_count
                                  (tr4 @ [IommuSetFaultHandler dmn])))"

text \<open>Lines 227--268 and what follows: run the loop, then continue or clean up.\<close>
definition probe_irqs ::
  "vmm_env \<Rightarrow> vmm_emudev \<Rightarrow> platform_pt_state \<Rightarrow> action list \<Rightarrow> probe_result" where
  "probe_irqs env edev s tr =
     (case probe_irq_loop env (node edev) s 0 0 tr of
        (Inl e, s1, irq_reg_count, tr1) \<Rightarrow>
          platform_pt_probe_cleanupirqs_fail e s1 irq_reg_count edev tr1
      | (Inr _, s1, irq_reg_count, tr1) \<Rightarrow> probe_iommu env edev s1 irq_reg_count tr1)"

text \<open>
  Lines 200--225: the interrupt count and the three arrays. \<^verbatim>\<open>sizeof(u32) * 2\<close> is 8; a
  fresh array holds \<open>irq_count\<close> zeros.
\<close>
definition probe_arrays ::
  "vmm_env \<Rightarrow> vmm_guest \<Rightarrow> vmm_emudev \<Rightarrow> platform_pt_state \<Rightarrow> action list \<Rightarrow> probe_result" where
  "probe_arrays env g edev s tr =
     (let len = attrlen (node edev) ''host-interrupts'';
          tr0 = tr @ [DevtreeAttrlen ''host-interrupts'' len];
          s0 = s\<lparr>guest := guest_id g, irq_count := len div 8,
                 guest_irqs := None, host_irqs := None, host_type_irqs := None\<rparr>;
          n = unat (irq_count s0)
      in if irq_count s0 \<noteq> 0 then
           let ok1 = vmm_zalloc env tr0 ObjHostIrqs;
               tr1 = tr0 @ [VmmZalloc ObjHostIrqs ok1]
           in if \<not> ok1 then platform_pt_probe_freestate_fail VMM_ENOMEM edev tr1
              else
                let s1 = s0\<lparr>host_irqs := Some (replicate n 0)\<rparr>;
                    ok2 = vmm_zalloc env tr1 ObjHostTypeIrqs;
                    tr2 = tr1 @ [VmmZalloc ObjHostTypeIrqs ok2]
                in if \<not> ok2 then platform_pt_probe_freehirqs_fail VMM_ENOMEM s1 edev tr2
                   else
                     let s2 = s1\<lparr>host_type_irqs := Some (replicate n 0)\<rparr>;
                         ok3 = vmm_zalloc env tr2 ObjGuestIrqs;
                         tr3 = tr2 @ [VmmZalloc ObjGuestIrqs ok3]
                     in if \<not> ok3 then platform_pt_probe_freehtirqs_fail VMM_ENOMEM s2 edev tr3
                        else probe_irqs env edev (s2\<lparr>guest_irqs := Some (replicate n 0)\<rparr>) tr3
         else probe_irqs env edev s0 tr0)"

text \<open>
  Lines 192--194: the three string calls on \<open>s->name\<close>. The result is the buffer's final
  contents and the value returned by the last call, the only one the code looks at.
\<close>
definition probe_name :: "vmm_guest \<Rightarrow> vmm_emudev \<Rightarrow> string \<times> nat" where
  "probe_name g edev =
     (let (n1, l1) = strlcpy (name zeroed_state) (guest_name g) name_size;
          (n2, l2) = strlcat n1 ''/'' name_size
      in strlcat n2 (node_name (node edev)) name_size)"

text \<open>\<^verbatim>\<open>platform_pt_probe(guest, edev, eid)\<close>; \<open>eid\<close> is not used by the function.\<close>
definition platform_pt_probe :: "vmm_env \<Rightarrow> vmm_guest \<Rightarrow> vmm_emudev \<Rightarrow> action list \<Rightarrow> probe_result" where
  "platform_pt_probe env g edev tr =
     (let ok = vmm_zalloc env tr ObjState;
          tr1 = tr @ [VmmZalloc ObjState ok]
      in if \<not> ok then (Inl VMM_ENOMEM, edev, tr1)
         else
           let (n3, l3) = probe_name g edev
           in if l3 \<ge> name_size then platform_pt_probe_freestate_fail VMM_EOVERFLOW edev tr1
              else probe_arrays env g edev (zeroed_state\<lparr>name := n3\<rparr>) tr1)"

subsection \<open>Reading a trace\<close>

text \<open>
  Modelled from the spec: the bookkeeping of the subsystems is not part of this file.
  Following the spec's resource model, a host line is routed from a successful
  \<^verbatim>\<open>vmm_host_irq_mark_routed\<close> to the matching \<^verbatim>\<open>vmm_host_irq_unmark_routed\<close>, carries
  this emulator's handler from a successful \<^verbatim>\<open>vmm_host_irq_register\<close> to the matching
  \<^verbatim>\<open>vmm_host_irq_unregister\<close>, a heap block is resident from a successful
  \<^verbatim>\<open>vmm_zalloc\<close> to its \<^verbatim>\<open>vmm_free\<close>, and likewise for a device reference, an IOMMU
  domain and the aspace subscription. \<open>held tr r\<close> is the number of acquisitions of
  resource \<open>r\<close> in the trace minus the number of its releases.
\<close>
datatype resource =
  RoutedLine u32 | HandlerOn u32 | HeapBlock heap_obj | DeviceRef nat | IommuDomain nat
| AspaceSubscription

fun acquired :: "action \<Rightarrow> resource option" where
  "acquired (VmmZalloc obj ok) = (if ok then Some (HeapBlock obj) else None)"
| "acquired (HostIrqMarkRouted h rc) = (if rc = VMM_OK then Some (RoutedLine h) else None)"
| "acquired (HostIrqRegister h nm rc) = (if rc = VMM_OK then Some (HandlerOn h) else None)"
| "acquired (DevdrvRefDevice d) = Some (DeviceRef d)"
| "acquired (IommuDomainAlloc grp dm) = map_option IommuDomain dm"
| "acquired (GuestAspaceRegisterClient p rc) = (if rc = VMM_OK then Some AspaceSubscription else None)"
| "acquired _ = None"

fun released :: "action \<Rightarrow> resource option" where
  "released (VmmFree obj) = Some (HeapBlock obj)"
| "released (HostIrqUnmarkRouted h) = Some (RoutedLine h)"
| "released (HostIrqUnregister h) = Some (HandlerOn h)"
| "released (DevdrvDrefDevice d) = Some (DeviceRef d)"
| "released (IommuDomainFree d) = Some (IommuDomain d)"
| "released GuestAspaceUnregisterClient = Some AspaceSubscription"
| "released _ = None"

definition held1 :: "resource \<Rightarrow> action \<Rightarrow> int" where
  "held1 r a = (if acquired a = Some r then 1 else 0) - (if released a = Some r then 1 else 0)"

definition held :: "action list \<Rightarrow> resource \<Rightarrow> int" where
  "held tr r = sum_list (map (held1 r) tr)"

text \<open>
  Modelled from the spec: the trigger type of a host line after a trace is the type of the
  last successful \<^verbatim>\<open>vmm_host_irq_set_type\<close> on it ("sets the host line's trigger type");
  \<open>None\<close> when the trace never set it.
\<close>
fun line_type :: "action list \<Rightarrow> u32 \<Rightarrow> u32 option" where
  "line_type [] h = None"
| "line_type (HostIrqSetType h' t rc # as) h =
     (case line_type as h of
        Some t' \<Rightarrow> Some t'
      | None \<Rightarrow> (if h' = h \<and> rc = VMM_OK then Some t else None))"
| "line_type (a # as) h = line_type as h"

text \<open>A host-IRQ call of the registration loop that did not succeed, with the error handed up.\<close>
fun irq_step_error :: "action \<Rightarrow> vmm_error option" where
  "irq_step_error (HostIrqSetType h t (Inl e)) = Some e"
| "irq_step_error (HostIrqMarkRouted h (Inl e)) = Some e"
| "irq_step_error (HostIrqRegister h nm (Inl e)) = Some e"
| "irq_step_error _ = None"

text \<open>A device-tree read that did not succeed, with the error handed up.\<close>
fun read_error :: "action \<Rightarrow> vmm_error option" where
  "read_error (DevtreeReadU32 a i (Inl e)) = Some e"
| "read_error _ = None"

text \<open>The calls a function made when it turned the trace \<open>tr\<close> into \<open>tr'\<close>.\<close>
definition new_actions :: "action list \<Rightarrow> action list \<Rightarrow> action list" where
  "new_actions tr tr' = drop (length tr) tr'"

text \<open>The errors of the failed host-IRQ calls, and of the failed device-tree reads, of a trace.\<close>
definition irq_errors :: "action list \<Rightarrow> vmm_error list" where
  "irq_errors tr = List.map_filter irq_step_error tr"

definition read_errors :: "action list \<Rightarrow> vmm_error list" where
  "read_errors tr = List.map_filter read_error tr"

text \<open>
  The calls of lines 270--299 and of their teardown: the read of "iommu-device", the
  device registry and the IOMMU layer.
\<close>
fun is_iommu_call :: "action \<Rightarrow> bool" where
  "is_iommu_call (BusFindDeviceByName nm d) = True"
| "is_iommu_call (DevdrvRefDevice d) = True"
| "is_iommu_call (DevdrvDrefDevice d) = True"
| "is_iommu_call (IommuDomainAlloc grp dm) = True"
| "is_iommu_call (IommuSetFaultHandler dm) = True"
| "is_iommu_call (IommuDomainFree dm) = True"
| "is_iommu_call (DevtreeReadString a r) = True"
| "is_iommu_call _ = False"

subsection \<open>The shapes of the traces of platform_pt_probe\<close>

text \<open>The \<open>i\<close>-th configured triple, as the device-tree reads deliver it.\<close>
definition cfg_host_irq :: "vmm_devtree_node \<Rightarrow> nat \<Rightarrow> u32" where
  "cfg_host_irq nd i =
     (case read_u32_atindex nd ''host-interrupts'' (i * 2) of Inr v \<Rightarrow> v | Inl _ \<Rightarrow> 0)"

definition cfg_host_type :: "vmm_devtree_node \<Rightarrow> nat \<Rightarrow> u32" where
  "cfg_host_type nd i =
     (case read_u32_atindex nd ''host-interrupts'' (i * 2 + 1) of Inr v \<Rightarrow> v | Inl _ \<Rightarrow> 0)"

definition cfg_guest_irq :: "vmm_devtree_node \<Rightarrow> nat \<Rightarrow> u32" where
  "cfg_guest_irq nd i =
     (case read_u32_atindex nd VMM_DEVTREE_INTERRUPTS_ATTR_NAME i of Inr v \<Rightarrow> v | Inl _ \<Rightarrow> 0)"

text \<open>The three reads of iteration \<open>i\<close>, all successful.\<close>
definition read_block :: "vmm_devtree_node \<Rightarrow> nat \<Rightarrow> action list" where
  "read_block nd i =
     [DevtreeReadU32 ''host-interrupts'' (i * 2) (Inr (cfg_host_irq nd i)),
      DevtreeReadU32 ''host-interrupts'' (i * 2 + 1) (Inr (cfg_host_type nd i)),
      DevtreeReadU32 VMM_DEVTREE_INTERRUPTS_ATTR_NAME i (Inr (cfg_guest_irq nd i))]"

datatype read_step = ReadHostIrq | ReadHostType | ReadGuestIrq

text \<open>The reads of iteration \<open>i\<close> when the given one fails with \<open>e\<close>.\<close>
fun failed_reads :: "vmm_devtree_node \<Rightarrow> nat \<Rightarrow> read_step \<Rightarrow> vmm_error \<Rightarrow> action list" where
  "failed_reads nd i ReadHostIrq e = [DevtreeReadU32 ''host-interrupts'' (i * 2) (Inl e)]"
| "failed_reads nd i ReadHostType e =
     [DevtreeReadU32 ''host-interrupts'' (i * 2) (Inr (cfg_host_irq nd i)),
      DevtreeReadU32 ''host-interrupts'' (i * 2 + 1) (Inl e)]"
| "failed_reads nd i ReadGuestIrq e =
     [DevtreeReadU32 ''host-interrupts'' (i * 2) (Inr (cfg_host_irq nd i)),
      DevtreeReadU32 ''host-interrupts'' (i * 2 + 1) (Inr (cfg_host_type nd i)),
      DevtreeReadU32 VMM_DEVTREE_INTERRUPTS_ATTR_NAME i (Inl e)]"

text \<open>The three host-IRQ calls on line \<open>h\<close>, all successful.\<close>
definition register_block :: "u32 \<Rightarrow> u32 \<Rightarrow> string \<Rightarrow> action list" where
  "register_block h t nm =
     [HostIrqSetType h t VMM_OK, HostIrqMarkRouted h VMM_OK, HostIrqRegister h nm VMM_OK]"

datatype irq_step = SetTypeStep | MarkRoutedStep | RegisterStep

text \<open>The host-IRQ calls on line \<open>h\<close> when the given one fails with \<open>e\<close>.\<close>
fun failed_register :: "u32 \<Rightarrow> u32 \<Rightarrow> string \<Rightarrow> irq_step \<Rightarrow> vmm_error \<Rightarrow> action list" where
  "failed_register h t nm SetTypeStep e = [HostIrqSetType h t (Inl e)]"
| "failed_register h t nm MarkRoutedStep e =
     [HostIrqSetType h t VMM_OK, HostIrqMarkRouted h (Inl e)]"
| "failed_register h t nm RegisterStep e =
     [HostIrqSetType h t VMM_OK, HostIrqMarkRouted h VMM_OK, HostIrqRegister h nm (Inl e),
      HostIrqUnmarkRouted h]"

text \<open>A complete iteration \<open>i\<close> of the loop of lines 227--268.\<close>
definition irq_block :: "vmm_devtree_node \<Rightarrow> string \<Rightarrow> nat \<Rightarrow> action list" where
  "irq_block nd nm i = read_block nd i @ register_block (cfg_host_irq nd i) (cfg_host_type nd i) nm"

text \<open>The two calls that give line \<open>i\<close> back.\<close>
definition unregister_block :: "vmm_devtree_node \<Rightarrow> nat \<Rightarrow> action list" where
  "unregister_block nd i =
     [HostIrqUnregister (cfg_host_irq nd i), HostIrqUnmarkRouted (cfg_host_irq nd i)]"

text \<open>The interrupt count \<open>N\<close> of a node: the byte length of "host-interrupts" over 8.\<close>
definition cfg_irq_count :: "vmm_devtree_node \<Rightarrow> nat" where
  "cfg_irq_count nd = unat (attrlen nd ''host-interrupts'' div 8)"

text \<open>Lines 186--225 when every allocation succeeds and the name fits.\<close>
definition alloc_prefix :: "vmm_devtree_node \<Rightarrow> action list" where
  "alloc_prefix nd =
     [VmmZalloc ObjState True, DevtreeAttrlen ''host-interrupts'' (attrlen nd ''host-interrupts'')]
     @ (if cfg_irq_count nd = 0 then []
        else [VmmZalloc ObjHostIrqs True, VmmZalloc ObjHostTypeIrqs True, VmmZalloc ObjGuestIrqs True])"

text \<open>Lines 325--337: the frees of the arrays that exist, and of the state.\<close>
definition free_suffix :: "vmm_devtree_node \<Rightarrow> action list" where
  "free_suffix nd =
     (if cfg_irq_count nd = 0 then []
      else [VmmFree ObjGuestIrqs, VmmFree ObjHostTypeIrqs, VmmFree ObjHostIrqs])
     @ [VmmFree ObjState]"

text \<open>Lines 321--337 with \<open>irq_reg_count = k\<close>: give lines \<open>0..k-1\<close> back, then free.\<close>
definition cleanup_suffix :: "vmm_devtree_node \<Rightarrow> nat \<Rightarrow> action list" where
  "cleanup_suffix nd k = concat (map (unregister_block nd) [0..<k]) @ free_suffix nd"

datatype loop_failure = FailedRead read_step | FailedRegister irq_step

text \<open>Iteration \<open>k\<close> of the loop when it ends in a \<^verbatim>\<open>goto\<close>: the calls made before the jump.\<close>
fun failed_iteration ::
  "vmm_devtree_node \<Rightarrow> string \<Rightarrow> nat \<Rightarrow> loop_failure \<Rightarrow> vmm_error \<Rightarrow> action list" where
  "failed_iteration nd nm k (FailedRead st) e = failed_reads nd k st e"
| "failed_iteration nd nm k (FailedRegister st) e =
     read_block nd k @ failed_register (cfg_host_irq nd k) (cfg_host_type nd k) nm st e"

text \<open>The fields of the state that the loop of lines 227--268 does not write.\<close>
definition same_scalars :: "platform_pt_state \<Rightarrow> platform_pt_state \<Rightarrow> bool" where
  "same_scalars s s' \<longleftrightarrow> name s' = name s \<and> guest s' = guest s \<and> irq_count s' = irq_count s
     \<and> dev s' = dev s \<and> dom_p s' = dom_p s \<and> nb_notifier_call s' = nb_notifier_call s
     \<and> nb_priority s' = nb_priority s"

text \<open>
  What the code after the loop relies on: the arrays are well formed, the count is the
  node's, and the first \<open>k\<close> host lines in the table are the configured ones.
\<close>
definition table_ready :: "vmm_devtree_node \<Rightarrow> platform_pt_state \<Rightarrow> nat \<Rightarrow> bool" where
  "table_ready nd s k \<longleftrightarrow>
     arrays_ok s \<and> unat (irq_count s) = cfg_irq_count nd \<and>
     (\<forall>j<k. the (host_irqs s) ! j = cfg_host_irq nd j)"

text \<open>What the teardown of lines 312--319 does for a state.\<close>
definition iommu_release :: "platform_pt_state \<Rightarrow> action list" where
  "iommu_release s =
     (case dom_p s of Some d \<Rightarrow> [IommuDomainFree d] | None \<Rightarrow> [])
     @ (case dev s of Some d \<Rightarrow> [DevdrvDrefDevice (dev_id d)] | None \<Rightarrow> [])"

text \<open>
  Lines 270--299 when they succeed: either no IOMMU device is configured, or the device
  \<open>dv\<close> named \<open>dname\<close> is found with group \<open>grp\<close>, referenced, and given the domain
  \<open>dmn\<close> with its fault handler.
\<close>
datatype iommu_cfg = NoIommu | WithIommu string vmm_device nat nat

fun iommu_actions :: "iommu_cfg \<Rightarrow> action list" where
  "iommu_actions NoIommu = [DevtreeReadString ''iommu-device'' None]"
| "iommu_actions (WithIommu dname dv grp dmn) =
     [DevtreeReadString ''iommu-device'' (Some dname), BusFindDeviceByName dname (Some dv),
      DevdrvRefDevice (dev_id dv), IommuDomainAlloc grp (Some dmn), IommuSetFaultHandler dmn]"

text \<open>Lines 312--319 after that: free the domain, drop the reference.\<close>
fun iommu_undo :: "iommu_cfg \<Rightarrow> action list" where
  "iommu_undo NoIommu = []"
| "iommu_undo (WithIommu dname dv grp dmn) = [IommuDomainFree dmn, DevdrvDrefDevice (dev_id dv)]"

fun iommu_dev :: "iommu_cfg \<Rightarrow> vmm_device option" where
  "iommu_dev NoIommu = None"
| "iommu_dev (WithIommu dname dv grp dmn) = Some dv"

fun iommu_dom :: "iommu_cfg \<Rightarrow> nat option" where
  "iommu_dom NoIommu = None"
| "iommu_dom (WithIommu dname dv grp dmn) = Some dmn"

text \<open>
  Lines 207--225 when the allocation of the given array fails: the allocations up to the
  failing one, then the frees of lines 328--337 reached by the \<^verbatim>\<open>goto\<close>.
\<close>
fun array_alloc_failure :: "heap_obj \<Rightarrow> action list" where
  "array_alloc_failure ObjHostIrqs = [VmmZalloc ObjHostIrqs False, VmmFree ObjState]"
| "array_alloc_failure ObjHostTypeIrqs =
     [VmmZalloc ObjHostIrqs True, VmmZalloc ObjHostTypeIrqs False,
      VmmFree ObjHostIrqs, VmmFree ObjState]"
| "array_alloc_failure ObjGuestIrqs =
     [VmmZalloc ObjHostIrqs True, VmmZalloc ObjHostTypeIrqs True, VmmZalloc ObjGuestIrqs False,
      VmmFree ObjHostTypeIrqs, VmmFree ObjHostIrqs, VmmFree ObjState]"
| "array_alloc_failure ObjState = []"

fun iommu_name :: "iommu_cfg \<Rightarrow> string option" where
  "iommu_name NoIommu = None"
| "iommu_name (WithIommu dname dv grp dmn) = Some dname"

text \<open>The domain was allocated for the group of the device that was found.\<close>
fun iommu_cfg_ok :: "iommu_cfg \<Rightarrow> bool" where
  "iommu_cfg_ok NoIommu = True"
| "iommu_cfg_ok (WithIommu dname dv grp dmn) = (iommu_group dv = Some grp)"

text \<open>Lines 186--268 when nothing fails up to and including iteration \<open>k - 1\<close>.\<close>
definition setup_trace :: "vmm_devtree_node \<Rightarrow> string \<Rightarrow> nat \<Rightarrow> action list" where
  "setup_trace nd nm k = alloc_prefix nd @ concat (map (irq_block nd nm) [0..<k])"

subsection \<open>Concrete inputs\<close>

text \<open>An environment in which every call succeeds, whatever happened before.\<close>
definition example_env :: vmm_env where
  "example_env =
     \<lparr>vmm_zalloc = (\<lambda>tr obj. True),
      vmm_host_irq_set_type = (\<lambda>tr h t. VMM_OK),
      vmm_host_irq_mark_routed = (\<lambda>tr h. VMM_OK),
      vmm_host_irq_register = (\<lambda>tr h nm. VMM_OK),
      vmm_devdrv_bus_find_device_by_name = (\<lambda>tr nm. Some \<lparr>dev_id = 7, iommu_group = Some 3\<rparr>),
      vmm_iommu_domain_alloc = (\<lambda>tr grp. Some 9),
      vmm_guest_aspace_register_client = (\<lambda>tr. VMM_OK),
      vmm_devemu_emulate_irq = (\<lambda>tr g q l. VMM_OK),
      guest_regions = (\<lambda>g.
        [\<lparr>region_flags = {VMM_REGION_REAL, VMM_REGION_MEMORY, VMM_REGION_ISRAM, VMM_REGION_ISHOSTRAM},
          gphys_start = 0x1000, gphys_end = 0x3000, hphys_start = 0x80001000\<rparr>,
         \<lparr>region_flags = {VMM_REGION_REAL, VMM_REGION_MEMORY},
          gphys_start = 0x9000, gphys_end = 0xA000, hphys_start = 0x40000000\<rparr>])\<rparr>"

text \<open>
  A state with two table entries for the same host line 40, mapped to guest lines 8 and
  9, and with an IOMMU device and domain.
\<close>
definition example_state :: platform_pt_state where
  "example_state =
     \<lparr>name = ''g0/eth0'', guest = 1, irq_count = 2,
      host_irqs = Some [40, 40], host_type_irqs = Some [4, 4], guest_irqs = Some [8, 9],
      dev = Some \<lparr>dev_id = 7, iommu_group = Some 3\<rparr>, dom_p = Some 9,
      nb_notifier_call = True, nb_priority = 0\<rparr>"

text \<open>
  A device node \<^verbatim>\<open>eth0\<close> with two interrupt triples, (host 40, type 4, guest 8) and
  (host 41, type 4, guest 9), and an IOMMU device name.
\<close>
definition example_node :: vmm_devtree_node where
  "example_node =
     \<lparr>node_name = ''eth0'',
      attrlen = (\<lambda>a. if a = ''host-interrupts'' then 16 else 0),
      read_u32_atindex = (\<lambda>a i.
        if a = ''host-interrupts'' then (if i < 4 then Inr ([40, 4, 41, 4] ! i) else Inl VMM_EINVALID)
        else if a = ''interrupts'' then (if i < 2 then Inr ([8, 9] ! i) else Inl VMM_EINVALID)
        else Inl VMM_EINVALID),
      read_string = (\<lambda>a. if a = ''iommu-device'' then Some ''smmu0'' else None)\<rparr>"

definition example_guest :: vmm_guest where
  "example_guest = \<lparr>guest_id = 1, guest_name = ''g0''\<rparr>"

definition example_edev :: vmm_emudev where
  "example_edev = \<lparr>node = example_node, priv = None\<rparr>"

text \<open>The same environment, except that marking a line routed always fails.\<close>
definition env_mark_routed_fails :: vmm_env where
  "env_mark_routed_fails =
     example_env\<lparr>vmm_host_irq_mark_routed := (\<lambda>tr h. Inl (VMM_EOTHER 16))\<rparr>"

text \<open>The same environment, except that no handler can be registered on host line 41.\<close>
definition env_register_41_fails :: vmm_env where
  "env_register_41_fails =
     example_env\<lparr>vmm_host_irq_register := (\<lambda>tr h nm. if h = 41 then Inl VMM_EFAIL else VMM_OK)\<rparr>"

text \<open>The same environment with no device of the configured name.\<close>
definition env_no_device :: vmm_env where
  "env_no_device = example_env\<lparr>vmm_devdrv_bus_find_device_by_name := (\<lambda>tr nm. None)\<rparr>"

text \<open>The same environment with a device that has no IOMMU group.\<close>
definition env_no_group :: vmm_env where
  "env_no_group =
     example_env\<lparr>vmm_devdrv_bus_find_device_by_name :=
                   (\<lambda>tr nm. Some \<lparr>dev_id = 7, iommu_group = None\<rparr>)\<rparr>"

text \<open>The same environment, except that no IOMMU domain can be allocated.\<close>
definition env_no_domain :: vmm_env where
  "env_no_domain = example_env\<lparr>vmm_iommu_domain_alloc := (\<lambda>tr grp. None)\<rparr>"

text \<open>
  The node \<^verbatim>\<open>eth0\<close> with two (host line, type) pairs but a single guest line: the read
  of the second guest line fails.
\<close>
definition short_node :: vmm_devtree_node where
  "short_node =
     example_node\<lparr>read_u32_atindex := (\<lambda>a i.
        if a = ''host-interrupts'' then (if i < 4 then Inr ([40, 4, 41, 4] ! i) else Inl VMM_EINVALID)
        else if a = ''interrupts'' then (if i < 1 then Inr 8 else Inl VMM_EINVALID)
        else Inl VMM_EINVALID)\<rparr>"

text \<open>A guest whose name has 63 characters, and a device node with the empty name.\<close>
definition long_guest :: vmm_guest where
  "long_guest = \<lparr>guest_id = 2, guest_name = replicate 63 CHR ''g''\<rparr>"

definition unnamed_node :: vmm_devtree_node where
  "unnamed_node =
     \<lparr>node_name = [], attrlen = (\<lambda>a. 0), read_u32_atindex = (\<lambda>a i. Inl VMM_EINVALID),
      read_string = (\<lambda>a. None)\<rparr>"

text \<open>The calls of \<^verbatim>\<open>platform_pt_probe\<close> on the example node up to the end of the first iteration.\<close>
definition example_first_line :: "action list" where
  "example_first_line =
     [VmmZalloc ObjState True, DevtreeAttrlen ''host-interrupts'' 16,
      VmmZalloc ObjHostIrqs True, VmmZalloc ObjHostTypeIrqs True, VmmZalloc ObjGuestIrqs True,
      DevtreeReadU32 ''host-interrupts'' 0 (Inr 40), DevtreeReadU32 ''host-interrupts'' 1 (Inr 4),
      DevtreeReadU32 ''interrupts'' 0 (Inr 8),
      HostIrqSetType 40 4 VMM_OK, HostIrqMarkRouted 40 VMM_OK,
      HostIrqRegister 40 ''g0/eth0'' VMM_OK]"

text \<open>The same, up to the end of the second iteration.\<close>
definition example_both_lines :: "action list" where
  "example_both_lines =
     example_first_line @
     [DevtreeReadU32 ''host-interrupts'' 2 (Inr 41), DevtreeReadU32 ''host-interrupts'' 3 (Inr 4),
      DevtreeReadU32 ''interrupts'' 1 (Inr 9),
      HostIrqSetType 41 4 VMM_OK, HostIrqMarkRouted 41 VMM_OK,
      HostIrqRegister 41 ''g0/eth0'' VMM_OK]"

text \<open>The full teardown of lines 321--337 on the example node.\<close>
definition example_teardown :: "action list" where
  "example_teardown =
     [HostIrqUnregister 40, HostIrqUnmarkRouted 40, HostIrqUnregister 41, HostIrqUnmarkRouted 41,
      VmmFree ObjGuestIrqs, VmmFree ObjHostTypeIrqs, VmmFree ObjHostIrqs, VmmFree ObjState]"

text \<open>The calls of the probe on \<open>short_node\<close>: the third read of the second iteration fails.\<close>
definition short_node_trace :: "action list" where
  "short_node_trace =
     [VmmZalloc ObjState True, DevtreeAttrlen ''host-interrupts'' 16,
      VmmZalloc ObjHostIrqs True, VmmZalloc ObjHostTypeIrqs True, VmmZalloc ObjGuestIrqs True,
      DevtreeReadU32 ''host-interrupts'' 0 (Inr 40), DevtreeReadU32 ''host-interrupts'' 1 (Inr 4),
      DevtreeReadU32 ''interrupts'' 0 (Inr 8),
      HostIrqSetType 40 4 VMM_OK, HostIrqMarkRouted 40 VMM_OK,
      HostIrqRegister 40 ''g0/eth0'' VMM_OK,
      DevtreeReadU32 ''host-interrupts'' 2 (Inr 41), DevtreeReadU32 ''host-interrupts'' 3 (Inr 4),
      DevtreeReadU32 ''interrupts'' 1 (Inl VMM_EINVALID),
      HostIrqUnregister 40, HostIrqUnmarkRouted 40,
      VmmFree ObjGuestIrqs, VmmFree ObjHostTypeIrqs, VmmFree ObjHostIrqs, VmmFree ObjState]"

text \<open>The calls of the probe when marking line 40 routed fails.\<close>
definition mark_failure_trace :: "action list" where
  "mark_failure_trace =
     [VmmZalloc ObjState True, DevtreeAttrlen ''host-interrupts'' 16,
      VmmZalloc ObjHostIrqs True, VmmZalloc ObjHostTypeIrqs True, VmmZalloc ObjGuestIrqs True,
      DevtreeReadU32 ''host-interrupts'' 0 (Inr 40), DevtreeReadU32 ''host-interrupts'' 1 (Inr 4),
      DevtreeReadU32 ''interrupts'' 0 (Inr 8),
      HostIrqSetType 40 4 VMM_OK, HostIrqMarkRouted 40 (Inl (VMM_EOTHER 16)),
      VmmFree ObjGuestIrqs, VmmFree ObjHostTypeIrqs, VmmFree ObjHostIrqs, VmmFree ObjState]"

text \<open>The calls of the probe whose handler registration on line 41 fails.\<close>
definition register_41_failure_trace :: "action list" where
  "register_41_failure_trace =
     example_first_line @
     [DevtreeReadU32 ''host-interrupts'' 2 (Inr 41), DevtreeReadU32 ''host-interrupts'' 3 (Inr 4),
      DevtreeReadU32 ''interrupts'' 1 (Inr 9),
      HostIrqSetType 41 4 VMM_OK, HostIrqMarkRouted 41 VMM_OK,
      HostIrqRegister 41 ''g0/eth0'' (Inl VMM_EFAIL), HostIrqUnmarkRouted 41,
      HostIrqUnregister 40, HostIrqUnmarkRouted 40,
      VmmFree ObjGuestIrqs, VmmFree ObjHostTypeIrqs, VmmFree ObjHostIrqs, VmmFree ObjState]"

section \<open>Properties\<close>

subsection \<open>The search loop and the handler\<close>

lemma find_guest_irq_none:
  "(\<forall>j. i \<le> j \<and> j < unat (irq_count s) \<longrightarrow> the (host_irqs s) ! j \<noteq> h)
   \<Longrightarrow> find_guest_irq s h i = (False, 0)"
proof (induction s h i rule: find_guest_irq.induct)
  case (1 s host_irq i)
  show ?case
  proof (cases "i < unat (irq_count s)")
    case True
    with "1.prems" have ne: "the (host_irqs s) ! i \<noteq> host_irq" by simp
    from "1.prems" have "\<forall>j. Suc i \<le> j \<and> j < unat (irq_count s) \<longrightarrow> the (host_irqs s) ! j \<noteq> host_irq"
      by simp
    with "1.IH" True ne have "find_guest_irq s host_irq (Suc i) = (False, 0)" by simp
    with True ne show ?thesis by (subst find_guest_irq.simps) simp
  next
    case False
    then show ?thesis by (subst find_guest_irq.simps) simp
  qed
qed

lemma find_guest_irq_first:
  "i \<le> k \<Longrightarrow> k < unat (irq_count s) \<Longrightarrow> the (host_irqs s) ! k = h
   \<Longrightarrow> (\<forall>j. i \<le> j \<and> j < k \<longrightarrow> the (host_irqs s) ! j \<noteq> h)
   \<Longrightarrow> find_guest_irq s h i = (True, the (guest_irqs s) ! k)"
proof (induction s h i rule: find_guest_irq.induct)
  case (1 s host_irq i)
  from "1.prems" have lt: "i < unat (irq_count s)" by simp
  show ?case
  proof (cases "i = k")
    case True
    with "1.prems" lt show ?thesis by (subst find_guest_irq.simps) simp
  next
    case False
    with "1.prems" have ne: "the (host_irqs s) ! i \<noteq> host_irq" and le: "Suc i \<le> k" by auto
    from "1.prems" have "\<forall>j. Suc i \<le> j \<and> j < k \<longrightarrow> the (host_irqs s) ! j \<noteq> host_irq" by simp
    with "1.IH" lt ne le "1.prems" have "find_guest_irq s host_irq (Suc i) = (True, the (guest_irqs s) ! k)"
      by simp
    with lt ne show ?thesis by (subst find_guest_irq.simps) simp
  qed
qed

lemma first_match_exists:
  "\<exists>i<n. P (i::nat) \<Longrightarrow> \<exists>k<n. P k \<and> (\<forall>j<k. \<not> P j)"
proof -
  assume "\<exists>i<n. P i"
  then obtain i where i: "i < n" "P i" by blast
  define k where "k = (LEAST i. P i)"
  have "P k" unfolding k_def using i(2) by (rule LeastI)
  moreover have "k \<le> i" unfolding k_def using i(2) by (rule Least_le)
  moreover have "\<forall>j<k. \<not> P j" unfolding k_def using not_less_Least by blast
  moreover from \<open>k \<le> i\<close> i(1) have "k < n" by simp
  ultimately show ?thesis by blast
qed

lemma emulate_irq_logged_calls:
  "\<exists>new. emulate_irq_logged env g q l tr = tr @ new \<and> emulate_calls new = [(g, q, l)]"
  by (simp add: emulate_irq_logged_def Let_def)

lemma emulate_calls_append: "emulate_calls (xs @ ys) = emulate_calls xs @ emulate_calls ys"
  by (induction xs rule: emulate_calls.induct) simp_all

lemma routed_irq_found:
  assumes "find_guest_irq s (word_of_int irq) 0 = (True, q)"
  shows "\<exists>new. platform_pt_routed_irq env irq s tr = (VMM_IRQ_HANDLED, tr @ new)
           \<and> emulate_calls new = [(guest s, q, 0), (guest s, q, 1)]"
proof -
  obtain n1 where n1: "emulate_irq_logged env (guest s) q 0 tr = tr @ n1"
      "emulate_calls n1 = [(guest s, q, 0)]"
    using emulate_irq_logged_calls by blast
  obtain n2 where n2: "emulate_irq_logged env (guest s) q 1 (tr @ n1) = (tr @ n1) @ n2"
      "emulate_calls n2 = [(guest s, q, 1)]"
    using emulate_irq_logged_calls by blast
  have "platform_pt_routed_irq env irq s tr = (VMM_IRQ_HANDLED, tr @ (n1 @ n2))"
    using assms n1(1) n2(1) by (simp add: platform_pt_routed_irq_def)
  moreover have "emulate_calls (n1 @ n2) = [(guest s, q, 0), (guest s, q, 1)]"
    by (simp add: emulate_calls_append n1(2) n2(2))
  ultimately show ?thesis by blast
qed

lemma routed_irq_not_found:
  assumes "find_guest_irq s (word_of_int irq) 0 = (False, q)"
  shows "platform_pt_routed_irq env irq s tr = (VMM_IRQ_HANDLED, tr)"
  using assms by (simp add: platform_pt_routed_irq_def)

lemma upt_0_2: "[0..<2] = [0, Suc 0]"
  by (simp add: numeral_2_eq_2)

lemma example_state_arrays_ok: "arrays_ok example_state"
  by (simp add: arrays_ok_def example_state_def)

lemma example_routed_irq_40:
  "platform_pt_routed_irq example_env 40 example_state [] =
     (VMM_IRQ_HANDLED, [DevemuEmulateIrq 1 8 0 VMM_OK, DevemuEmulateIrq 1 8 1 VMM_OK])"
  by (simp add: platform_pt_routed_irq_def find_guest_irq.simps emulate_irq_logged_def
        example_state_def example_env_def)

text \<open>
  Claim C2. Whenever host line \<open>irq\<close> fires on a state with well-formed arrays, the
  handler returns \<open>VMM_IRQ_HANDLED\<close>. If some table index holds that host line, the
  handler's \<^verbatim>\<open>vmm_devemu_emulate_irq\<close> calls are exactly two, on the guest line of a
  matching index of this state's guest: first with level 0, then with level 1 (whatever
  the two calls return). If no index holds the line, the handler calls nothing.
\<close>
theorem platform_pt_routed_irq_two_phase:
  assumes ok: "arrays_ok s"
    and run: "platform_pt_routed_irq env irq s tr = (ret, tr')"
  shows "ret = VMM_IRQ_HANDLED \<and>
         (\<exists>new. tr' = tr @ new \<and>
            (if (\<exists>i < unat (irq_count s). the (host_irqs s) ! i = word_of_int irq)
             then (\<exists>i < unat (irq_count s). the (host_irqs s) ! i = word_of_int irq \<and>
                     emulate_calls new =
                       [(guest s, the (guest_irqs s) ! i, 0), (guest s, the (guest_irqs s) ! i, 1)])
             else new = []))"
proof (cases "\<exists>i < unat (irq_count s). the (host_irqs s) ! i = word_of_int irq")
  case True
  then obtain k where k: "k < unat (irq_count s)" "the (host_irqs s) ! k = word_of_int irq"
      "\<forall>j<k. the (host_irqs s) ! j \<noteq> word_of_int irq"
    using first_match_exists [of "unat (irq_count s)" "\<lambda>i. the (host_irqs s) ! i = word_of_int irq"]
    by blast
  then have "find_guest_irq s (word_of_int irq) 0 = (True, the (guest_irqs s) ! k)"
    by (intro find_guest_irq_first) simp_all
  from routed_irq_found [OF this, of env tr] run k(1,2) True show ?thesis
    by auto
next
  case False
  then have "find_guest_irq s (word_of_int irq) 0 = (False, 0)"
    by (intro find_guest_irq_none) simp
  from routed_irq_not_found [OF this, of env tr] run False show ?thesis
    by simp
qed

theorem platform_pt_routed_irq_two_phase_witness:
  "arrays_ok example_state \<and>
   platform_pt_routed_irq example_env 40 example_state [] =
     (VMM_IRQ_HANDLED, [DevemuEmulateIrq 1 8 0 VMM_OK, DevemuEmulateIrq 1 8 1 VMM_OK]) \<and>
   (\<exists>new. [DevemuEmulateIrq 1 8 0 VMM_OK, DevemuEmulateIrq 1 8 1 VMM_OK] = [] @ new \<and>
      (if (\<exists>i < unat (irq_count example_state). the (host_irqs example_state) ! i = word_of_int 40)
       then (\<exists>i < unat (irq_count example_state).
               the (host_irqs example_state) ! i = word_of_int 40 \<and>
               emulate_calls new =
                 [(guest example_state, the (guest_irqs example_state) ! i, 0),
                  (guest example_state, the (guest_irqs example_state) ! i, 1)])
       else new = []))"
  using platform_pt_routed_irq_two_phase [OF example_state_arrays_ok example_routed_irq_40]
    example_state_arrays_ok example_routed_irq_40
  by blast

text \<open>
  Claim C10. When two table indices \<open>i < j\<close> hold the host line that fires and \<open>i\<close> is the
  lowest index holding it, the handler's \<^verbatim>\<open>vmm_devemu_emulate_irq\<close> calls are the level-0
  and level-1 calls on \<open>guest_irqs[i]\<close> and nothing else; in particular no call is made on
  \<open>guest_irqs[j]\<close> when that is a different guest line.
\<close>
theorem platform_pt_routed_irq_first_match_only:
  assumes ok: "arrays_ok s"
    and ij: "i < j" "j < unat (irq_count s)"
    and hi: "the (host_irqs s) ! i = word_of_int irq"
    and hj: "the (host_irqs s) ! j = word_of_int irq"
    and lowest: "\<forall>m<i. the (host_irqs s) ! m \<noteq> word_of_int irq"
    and run: "platform_pt_routed_irq env irq s tr = (ret, tr')"
  shows "\<exists>new. tr' = tr @ new \<and>
           emulate_calls new =
             [(guest s, the (guest_irqs s) ! i, 0), (guest s, the (guest_irqs s) ! i, 1)] \<and>
           (the (guest_irqs s) ! j \<noteq> the (guest_irqs s) ! i \<longrightarrow>
              (\<forall>c \<in> set (emulate_calls new). fst (snd c) \<noteq> the (guest_irqs s) ! j))"
proof -
  from ij hi lowest
  have "find_guest_irq s (word_of_int irq) 0 = (True, the (guest_irqs s) ! i)"
    by (intro find_guest_irq_first) simp_all
  from routed_irq_found [OF this, of env tr] run show ?thesis
    by auto
qed

theorem platform_pt_routed_irq_first_match_only_witness:
  "arrays_ok example_state \<and> (0::nat) < 1 \<and> 1 < unat (irq_count example_state) \<and>
   the (host_irqs example_state) ! 0 = word_of_int 40 \<and>
   the (host_irqs example_state) ! 1 = word_of_int 40 \<and>
   the (guest_irqs example_state) ! 1 \<noteq> the (guest_irqs example_state) ! 0 \<and>
   platform_pt_routed_irq example_env 40 example_state [] =
     (VMM_IRQ_HANDLED, [DevemuEmulateIrq 1 8 0 VMM_OK, DevemuEmulateIrq 1 8 1 VMM_OK]) \<and>
   (\<exists>new. [DevemuEmulateIrq 1 8 0 VMM_OK, DevemuEmulateIrq 1 8 1 VMM_OK] = [] @ new \<and>
      emulate_calls new =
        [(guest example_state, the (guest_irqs example_state) ! 0, 0),
         (guest example_state, the (guest_irqs example_state) ! 0, 1)] \<and>
      (\<forall>c \<in> set (emulate_calls new). fst (snd c) \<noteq> the (guest_irqs example_state) ! 1))"
proof -
  have a: "(0::nat) < 1" "1 < unat (irq_count example_state)"
    "the (host_irqs example_state) ! 0 = word_of_int 40"
    "the (host_irqs example_state) ! 1 = word_of_int 40"
    "\<forall>m<(0::nat). the (host_irqs example_state) ! m \<noteq> word_of_int 40"
    "the (guest_irqs example_state) ! 1 \<noteq> the (guest_irqs example_state) ! 0"
    by (simp_all add: example_state_def)
  from platform_pt_routed_irq_first_match_only
         [OF example_state_arrays_ok a(1) a(2) a(3) a(4) a(5) example_routed_irq_40]
    a example_state_arrays_ok example_routed_irq_40
  show ?thesis by blast
qed

subsection \<open>The aspace notification\<close>

lemma map_host2guest_irqs_eq:
  "map_host2guest_irqs s i tr =
     tr @ map (\<lambda>j. DevemuMapHost2GuestIrq (guest s) (the (guest_irqs s) ! j) (the (host_irqs s) ! j))
            [i..<unat (irq_count s)]"
proof (induction s i tr rule: map_host2guest_irqs.induct)
  case (1 s i tr)
  show ?case
  proof (cases "i < unat (irq_count s)")
    case True
    with "1.IH" show ?thesis
      by (subst map_host2guest_irqs.simps) (simp add: upt_conv_Cons)
  next
    case False
    then show ?thesis by (subst map_host2guest_irqs.simps) simp
  qed
qed

lemma foldl_platform_pt_iter:
  "foldl (\<lambda>t reg. platform_pt_iter s reg t) tr regs =
     tr @ map (\<lambda>reg. IommuMap (dom_p s) (gphys_start reg) (hphys_start reg)
                        (gphys_end reg - gphys_start reg) {VMM_IOMMU_READ, VMM_IOMMU_WRITE}) regs"
  by (induction regs arbitrary: tr) (simp_all add: platform_pt_iter_def)

text \<open>
  Claim C4. On an init event for the state's own guest, the notifier returns \<open>NOTIFY_OK\<close>
  and its calls are exactly: one \<^verbatim>\<open>vmm_devemu_map_host2guest_irq\<close> per index \<open>i\<close> below
  \<open>irq_count\<close>, pairing \<open>guest_irqs[i]\<close> with \<open>host_irqs[i]\<close>, in index order; then, exactly
  when a domain is present, the region iteration with the four flags and one
  \<^verbatim>\<open>vmm_iommu_map\<close> per region carrying all four flags, with iova the region's
  guest-physical start, the region's host-physical start, length end minus start, and
  read and write permission.
\<close>
theorem aspace_init_maps_irqs_and_regions:
  assumes ok: "arrays_ok s"
    and mine: "guest s = edata_guest"
  shows "platform_pt_guest_aspace_notification env s VMM_GUEST_ASPACE_EVENT_INIT edata_guest tr =
     (NOTIFY_OK,
      tr @ map (\<lambda>i. DevemuMapHost2GuestIrq (guest s) (the (guest_irqs s) ! i) (the (host_irqs s) ! i))
             [0..<unat (irq_count s)]
         @ (if dom_p s \<noteq> None then
              GuestIterateRegion (guest s)
                {VMM_REGION_REAL, VMM_REGION_MEMORY, VMM_REGION_ISRAM, VMM_REGION_ISHOSTRAM}
              # map (\<lambda>reg. IommuMap (dom_p s) (gphys_start reg) (hphys_start reg)
                             (gphys_end reg - gphys_start reg) {VMM_IOMMU_READ, VMM_IOMMU_WRITE})
                  (filter (\<lambda>reg. {VMM_REGION_REAL, VMM_REGION_MEMORY, VMM_REGION_ISRAM,
                                    VMM_REGION_ISHOSTRAM} \<subseteq> region_flags reg)
                     (guest_regions env (guest s)))
            else []))"
  using mine
  by (simp add: platform_pt_guest_aspace_notification_def Let_def map_host2guest_irqs_eq
        vmm_guest_iterate_region_def foldl_platform_pt_iter)

theorem aspace_init_maps_irqs_and_regions_witness:
  "arrays_ok example_state \<and> guest example_state = 1 \<and>
   platform_pt_guest_aspace_notification example_env example_state VMM_GUEST_ASPACE_EVENT_INIT 1 [] =
     (NOTIFY_OK,
      [DevemuMapHost2GuestIrq 1 8 40, DevemuMapHost2GuestIrq 1 9 40,
       GuestIterateRegion 1
         {VMM_REGION_REAL, VMM_REGION_MEMORY, VMM_REGION_ISRAM, VMM_REGION_ISHOSTRAM},
       IommuMap (Some 9) 0x1000 0x80001000 0x2000 {VMM_IOMMU_READ, VMM_IOMMU_WRITE}])"
proof -
  have g: "guest example_state = 1" by (simp add: example_state_def)
  from aspace_init_maps_irqs_and_regions [OF example_state_arrays_ok g, of example_env "[]"]
  have "platform_pt_guest_aspace_notification example_env example_state VMM_GUEST_ASPACE_EVENT_INIT 1 [] =
     (NOTIFY_OK,
      [DevemuMapHost2GuestIrq 1 8 40, DevemuMapHost2GuestIrq 1 9 40,
       GuestIterateRegion 1
         {VMM_REGION_REAL, VMM_REGION_MEMORY, VMM_REGION_ISRAM, VMM_REGION_ISHOSTRAM},
       IommuMap (Some 9) 0x1000 0x80001000 0x2000 {VMM_IOMMU_READ, VMM_IOMMU_WRITE}])"
    by (simp add: example_state_def example_env_def upt_0_2)
  with example_state_arrays_ok g show ?thesis by simp
qed

text \<open>
  Claim C9. For an event that is not the init event, or that is for another guest than
  the state's, the notifier makes no call at all (the trace is returned as it was) and
  returns \<open>NOTIFY_DONE\<close>, which is not an error code. The function only reads the state.
\<close>
theorem aspace_other_event_ignored:
  assumes "evt \<noteq> VMM_GUEST_ASPACE_EVENT_INIT \<or> guest s \<noteq> edata_guest"
  shows "platform_pt_guest_aspace_notification env s evt edata_guest tr = (NOTIFY_DONE, tr)"
  using assms by (auto simp: platform_pt_guest_aspace_notification_def)

theorem aspace_other_event_ignored_witness:
  "VMM_GUEST_ASPACE_EVENT_OTHER 2 \<noteq> VMM_GUEST_ASPACE_EVENT_INIT \<and>
   platform_pt_guest_aspace_notification example_env example_state (VMM_GUEST_ASPACE_EVENT_OTHER 2) 1 [] =
     (NOTIFY_DONE, []) \<and>
   guest example_state \<noteq> 5 \<and>
   platform_pt_guest_aspace_notification example_env example_state VMM_GUEST_ASPACE_EVENT_INIT 5 [] =
     (NOTIFY_DONE, [])"
proof -
  have a: "VMM_GUEST_ASPACE_EVENT_OTHER 2 \<noteq> VMM_GUEST_ASPACE_EVENT_INIT" by simp
  have b: "guest example_state \<noteq> 5" by (simp add: example_state_def)
  from a have a': "VMM_GUEST_ASPACE_EVENT_OTHER 2 \<noteq> VMM_GUEST_ASPACE_EVENT_INIT
      \<or> guest example_state \<noteq> 1" ..
  from b have b': "VMM_GUEST_ASPACE_EVENT_INIT \<noteq> VMM_GUEST_ASPACE_EVENT_INIT
      \<or> guest example_state \<noteq> 5" ..
  from aspace_other_event_ignored [OF a', of example_env "[]"]
       aspace_other_event_ignored [OF b', of example_env "[]"] a b
  show ?thesis by simp
qed

subsection \<open>platform_pt_remove\<close>

lemma unregister_irqs_eq:
  "unregister_irqs s n i tr =
     tr @ concat (map (\<lambda>j. [HostIrqUnregister (the (host_irqs s) ! j),
                              HostIrqUnmarkRouted (the (host_irqs s) ! j)]) [i..<n])"
proof (induction s n i tr rule: unregister_irqs.induct)
  case (1 s n i tr)
  show ?case
  proof (cases "i < n")
    case True
    with "1.IH" show ?thesis
      by (subst unregister_irqs.simps) (simp add: upt_conv_Cons)
  next
    case False
    then show ?thesis by (subst unregister_irqs.simps) simp
  qed
qed

text \<open>
  Claim C3. With no state attached (\<open>priv\<close> is NULL), \<^verbatim>\<open>platform_pt_remove\<close> returns
  \<open>VMM_EFAIL\<close>, makes no call and leaves the device as it is. With a state attached it
  returns \<open>VMM_OK\<close>, clears \<open>priv\<close>, and its calls are exactly, in this order: unregister the
  aspace client; free the domain if there is one; drop the device reference if there is a
  device; for every index below \<open>irq_count\<close>, unregister the handler and unmark the line;
  free the three arrays (they exist exactly when \<open>irq_count\<close> is not zero); free the state.
\<close>
theorem platform_pt_remove_teardown:
  "(priv edev = None \<longrightarrow> platform_pt_remove edev tr = (Inl VMM_EFAIL, edev, tr)) \<and>
   (\<forall>s. priv edev = Some s \<and> arrays_ok s \<longrightarrow>
      platform_pt_remove edev tr =
        (VMM_OK, edev\<lparr>priv := None\<rparr>,
         tr @ [GuestAspaceUnregisterClient]
            @ (case dom_p s of Some d \<Rightarrow> [IommuDomainFree d] | None \<Rightarrow> [])
            @ (case dev s of Some d \<Rightarrow> [DevdrvDrefDevice (dev_id d)] | None \<Rightarrow> [])
            @ concat (map (\<lambda>i. [HostIrqUnregister (the (host_irqs s) ! i),
                                  HostIrqUnmarkRouted (the (host_irqs s) ! i)])
                        [0..<unat (irq_count s)])
            @ (if irq_count s = 0 then []
               else [VmmFree ObjGuestIrqs, VmmFree ObjHostTypeIrqs, VmmFree ObjHostIrqs])
            @ [VmmFree ObjState]))"
  by (auto simp: platform_pt_remove_def Let_def unregister_irqs_eq free_if_set_def arrays_ok_def
           split: option.splits)

theorem platform_pt_remove_teardown_witness:
  "platform_pt_remove \<lparr>node = example_node, priv = None\<rparr> [] = (Inl VMM_EFAIL, \<lparr>node = example_node, priv = None\<rparr>, []) \<and>
   arrays_ok example_state \<and>
   platform_pt_remove \<lparr>node = example_node, priv = Some example_state\<rparr> [] =
     (VMM_OK, \<lparr>node = example_node, priv = None\<rparr>,
      [GuestAspaceUnregisterClient, IommuDomainFree 9, DevdrvDrefDevice 7,
       HostIrqUnregister 40, HostIrqUnmarkRouted 40, HostIrqUnregister 40, HostIrqUnmarkRouted 40,
       VmmFree ObjGuestIrqs, VmmFree ObjHostTypeIrqs, VmmFree ObjHostIrqs, VmmFree ObjState])"
proof -
  from platform_pt_remove_teardown [of "\<lparr>node = example_node, priv = None\<rparr>" "[]"]
  have a: "platform_pt_remove \<lparr>node = example_node, priv = None\<rparr> [] =
             (Inl VMM_EFAIL, \<lparr>node = example_node, priv = None\<rparr>, [])"
    by simp
  from platform_pt_remove_teardown [of "\<lparr>node = example_node, priv = Some example_state\<rparr>" "[]"]
    example_state_arrays_ok
  have "platform_pt_remove \<lparr>node = example_node, priv = Some example_state\<rparr> [] =
     (VMM_OK, \<lparr>node = example_node, priv = None\<rparr>,
      [GuestAspaceUnregisterClient, IommuDomainFree 9, DevdrvDrefDevice 7,
       HostIrqUnregister 40, HostIrqUnmarkRouted 40, HostIrqUnregister 40, HostIrqUnmarkRouted 40,
       VmmFree ObjGuestIrqs, VmmFree ObjHostTypeIrqs, VmmFree ObjHostIrqs, VmmFree ObjState])"
    by (simp add: example_state_def upt_0_2)
  with a example_state_arrays_ok show ?thesis by simp
qed

subsection \<open>The loop of platform_pt_probe\<close>

lemma arrays_okD:
  assumes "arrays_ok s" "i < unat (irq_count s)"
  obtains hs ts gs where "host_irqs s = Some hs" "host_type_irqs s = Some ts" "guest_irqs s = Some gs"
    "length hs = unat (irq_count s)" "length ts = unat (irq_count s)" "length gs = unat (irq_count s)"
proof -
  from assms(2) have "irq_count s \<noteq> 0" by (auto simp: unat_eq_0)
  with assms(1) show ?thesis
    using that by (auto simp: arrays_ok_def split: option.splits)
qed

lemma probe_read_irqs_cases:
  assumes ok: "arrays_ok s" and lt: "i < unat (irq_count s)"
    and run: "probe_read_irqs nd s i tr = (r, s', tr')"
  shows "arrays_ok s' \<and> same_scalars s s' \<and> (\<forall>j<i. the (host_irqs s') ! j = the (host_irqs s) ! j) \<and>
     ((r = VMM_OK \<and> tr' = tr @ read_block nd i \<and> the (host_irqs s') ! i = cfg_host_irq nd i
         \<and> the (host_type_irqs s') ! i = cfg_host_type nd i)
      \<or> (\<exists>e st. r = Inl e \<and> tr' = tr @ failed_reads nd i st e))"
proof -
  from ok lt obtain hs ts gs where a: "host_irqs s = Some hs" "host_type_irqs s = Some ts"
      "guest_irqs s = Some gs" "length hs = unat (irq_count s)" "length ts = unat (irq_count s)"
      "length gs = unat (irq_count s)"
    by (rule arrays_okD)
  from lt have nz: "irq_count s \<noteq> 0" by (auto simp: unat_eq_0)
  show ?thesis
  proof (cases "read_u32_atindex nd ''host-interrupts'' (i * 2)")
    case (Inl e)
    with run have "r = Inl e" "s' = s" "tr' = tr @ failed_reads nd i ReadHostIrq e"
      by (auto simp: probe_read_irqs_def Let_def)
    then have "\<exists>e st. r = Inl e \<and> tr' = tr @ failed_reads nd i st e" by blast
    moreover from \<open>s' = s\<close> ok have "arrays_ok s' \<and> same_scalars s s' \<and>
        (\<forall>j<i. the (host_irqs s') ! j = the (host_irqs s) ! j)"
      by (simp add: same_scalars_def)
    ultimately show ?thesis by blast
  next
    case h: (Inr h)
    show ?thesis
    proof (cases "read_u32_atindex nd ''host-interrupts'' (i * 2 + 1)")
      case (Inl e)
      with run h have "r = Inl e" "s' = s\<lparr>host_irqs := Some (hs[i := h])\<rparr>"
        "tr' = tr @ failed_reads nd i ReadHostType e"
        by (auto simp: probe_read_irqs_def Let_def a cfg_host_irq_def)
      then have "\<exists>e st. r = Inl e \<and> tr' = tr @ failed_reads nd i st e" by blast
      moreover from \<open>s' = s\<lparr>host_irqs := Some (hs[i := h])\<rparr>\<close> a nz
      have "arrays_ok s' \<and> same_scalars s s' \<and>
          (\<forall>j<i. the (host_irqs s') ! j = the (host_irqs s) ! j)"
        by (simp add: same_scalars_def arrays_ok_def)
      ultimately show ?thesis by blast
    next
      case t: (Inr t)
      show ?thesis
      proof (cases "read_u32_atindex nd VMM_DEVTREE_INTERRUPTS_ATTR_NAME i")
        case (Inl e)
        with run h t have "r = Inl e"
          "s' = s\<lparr>host_irqs := Some (hs[i := h]), host_type_irqs := Some (ts[i := t])\<rparr>"
          "tr' = tr @ failed_reads nd i ReadGuestIrq e"
          by (auto simp: probe_read_irqs_def Let_def a cfg_host_irq_def cfg_host_type_def)
        then have "\<exists>e st. r = Inl e \<and> tr' = tr @ failed_reads nd i st e" by blast
        moreover from \<open>s' = s\<lparr>host_irqs := Some (hs[i := h]), host_type_irqs := Some (ts[i := t])\<rparr>\<close> a nz
        have "arrays_ok s' \<and> same_scalars s s' \<and>
            (\<forall>j<i. the (host_irqs s') ! j = the (host_irqs s) ! j)"
          by (simp add: same_scalars_def arrays_ok_def)
        ultimately show ?thesis by blast
      next
        case q: (Inr q)
        with run h t have "r = VMM_OK"
          "s' = s\<lparr>host_irqs := Some (hs[i := h]), host_type_irqs := Some (ts[i := t]),
                  guest_irqs := Some (gs[i := q])\<rparr>"
          "tr' = tr @ read_block nd i"
          by (auto simp: probe_read_irqs_def Let_def a cfg_host_irq_def cfg_host_type_def
                cfg_guest_irq_def read_block_def)
        with a nz lt h t show ?thesis
          by (auto simp: same_scalars_def arrays_ok_def cfg_host_irq_def cfg_host_type_def)
      qed
    qed
  qed
qed

lemma probe_register_irq_cases:
  assumes run: "probe_register_irq env s i tr = (r, tr')"
  shows "(r = VMM_OK \<and> tr' = tr @ register_block (the (host_irqs s) ! i) (the (host_type_irqs s) ! i) (name s))
      \<or> (\<exists>e st. r = Inl e \<and>
            tr' = tr @ failed_register (the (host_irqs s) ! i) (the (host_type_irqs s) ! i) (name s) st e)"
proof -
  let ?h = "the (host_irqs s) ! i" and ?t = "the (host_type_irqs s) ! i"
  show ?thesis
  proof (cases "vmm_host_irq_set_type env tr ?h ?t")
    case (Inl e)
    with run have "r = Inl e" "tr' = tr @ failed_register ?h ?t (name s) SetTypeStep e"
      by (auto simp: probe_register_irq_def Let_def)
    then show ?thesis by blast
  next
    case r1: (Inr u1)
    show ?thesis
    proof (cases "vmm_host_irq_mark_routed env (tr @ [HostIrqSetType ?h ?t VMM_OK]) ?h")
      case (Inl e)
      with run r1 have "r = Inl e" "tr' = tr @ failed_register ?h ?t (name s) MarkRoutedStep e"
        by (auto simp: probe_register_irq_def Let_def)
      then show ?thesis by blast
    next
      case r2: (Inr u2)
      show ?thesis
      proof (cases "vmm_host_irq_register env
                      (tr @ [HostIrqSetType ?h ?t VMM_OK, HostIrqMarkRouted ?h VMM_OK]) ?h (name s)")
        case (Inl e)
        with run r1 r2 have "r = Inl e" "tr' = tr @ failed_register ?h ?t (name s) RegisterStep e"
          by (auto simp: probe_register_irq_def Let_def)
        then show ?thesis by blast
      next
        case (Inr u3)
        with run r1 r2 have "r = VMM_OK" "tr' = tr @ register_block ?h ?t (name s)"
          by (auto simp: probe_register_irq_def Let_def register_block_def)
        then show ?thesis by blast
      qed
    qed
  qed
qed


lemma same_scalars_refl [simp]: "same_scalars s s"
  by (simp add: same_scalars_def)

lemma same_scalars_trans: "same_scalars a b \<Longrightarrow> same_scalars b c \<Longrightarrow> same_scalars a c"
  by (simp add: same_scalars_def)

lemma probe_irq_loop_shape:
  "\<lbrakk>unat (irq_count s) - i = n; i \<le> unat (irq_count s); arrays_ok s;
    \<forall>j<i. the (host_irqs s) ! j = cfg_host_irq nd j;
    probe_irq_loop env nd s i c tr = (r, s', c', tr')\<rbrakk>
   \<Longrightarrow> arrays_ok s' \<and> same_scalars s s' \<and>
       (\<exists>k. i \<le> k \<and> k \<le> unat (irq_count s) \<and> c' = c + (k - i) \<and>
            (\<forall>j<k. the (host_irqs s') ! j = cfg_host_irq nd j) \<and>
            ((r = VMM_OK \<and> k = unat (irq_count s) \<and>
                tr' = tr @ concat (map (irq_block nd (name s)) [i..<k]))
             \<or> (\<exists>e f. r = Inl e \<and> k < unat (irq_count s) \<and>
                   tr' = tr @ concat (map (irq_block nd (name s)) [i..<k])
                            @ failed_iteration nd (name s) k f e)))"
proof (induction n arbitrary: s i c tr)
  case 0
  then have "i = unat (irq_count s)" by simp
  note unf = probe_irq_loop.simps [of env nd s i c tr]
  from "0.prems"(5) [unfolded unf] \<open>i = unat (irq_count s)\<close>
  have "r = VMM_OK" "s' = s" "c' = c" "tr' = tr"
    by simp_all
  with "0.prems" \<open>i = unat (irq_count s)\<close> show ?case by auto
next
  case (Suc n)
  then have lt: "i < unat (irq_count s)" by simp
  note unf = probe_irq_loop.simps [of env nd s i c tr]
  obtain r1 s1 tr1 where rd: "probe_read_irqs nd s i tr = (r1, s1, tr1)"
    by (cases "probe_read_irqs nd s i tr") auto
  from probe_read_irqs_cases [OF Suc.prems(3) lt rd]
  have ok1: "arrays_ok s1" and sc1: "same_scalars s s1"
    and keep: "\<forall>j<i. the (host_irqs s1) ! j = the (host_irqs s) ! j"
    and alt: "(r1 = VMM_OK \<and> tr1 = tr @ read_block nd i \<and> the (host_irqs s1) ! i = cfg_host_irq nd i
                \<and> the (host_type_irqs s1) ! i = cfg_host_type nd i)
              \<or> (\<exists>e st. r1 = Inl e \<and> tr1 = tr @ failed_reads nd i st e)"
    by blast+
  from keep Suc.prems(4) have inv1: "\<forall>j<i. the (host_irqs s1) ! j = cfg_host_irq nd j" by simp
  from alt show ?case
  proof
    assume "\<exists>e st. r1 = Inl e \<and> tr1 = tr @ failed_reads nd i st e"
    then obtain e st where e: "r1 = Inl e" "tr1 = tr @ failed_iteration nd (name s) i (FailedRead st) e"
      by auto
    with rd lt Suc.prems(5) [unfolded unf] have res: "r = Inl e" "s' = s1" "c' = c" "tr' = tr1"
      by simp_all
    have "r = Inl e \<and> i < unat (irq_count s) \<and>
            tr' = tr @ concat (map (irq_block nd (name s)) [i..<i])
                     @ failed_iteration nd (name s) i (FailedRead st) e"
      using res e lt by simp
    then have "\<exists>e f. r = Inl e \<and> i < unat (irq_count s) \<and>
            tr' = tr @ concat (map (irq_block nd (name s)) [i..<i]) @ failed_iteration nd (name s) i f e"
      by blast
    with res ok1 sc1 inv1 lt show ?case
      by (intro conjI exI [of _ i]) simp_all
  next
    assume okr: "r1 = VMM_OK \<and> tr1 = tr @ read_block nd i \<and> the (host_irqs s1) ! i = cfg_host_irq nd i
                  \<and> the (host_type_irqs s1) ! i = cfg_host_type nd i"
    obtain r2 tr2 where rg: "probe_register_irq env s1 i tr1 = (r2, tr2)"
      by (cases "probe_register_irq env s1 i tr1") auto
    from sc1 have nm: "name s1 = name s" and cnt: "irq_count s1 = irq_count s"
      by (simp_all add: same_scalars_def)
    from probe_register_irq_cases [OF rg] okr nm
    have alt2: "(r2 = VMM_OK \<and> tr2 = tr @ irq_block nd (name s) i)
                \<or> (\<exists>e st. r2 = Inl e \<and> tr2 = tr @ failed_iteration nd (name s) i (FailedRegister st) e)"
      by (auto simp: irq_block_def)
    from alt2 show ?case
    proof
      assume "\<exists>e st. r2 = Inl e \<and> tr2 = tr @ failed_iteration nd (name s) i (FailedRegister st) e"
      then obtain e st where e: "r2 = Inl e"
          "tr2 = tr @ failed_iteration nd (name s) i (FailedRegister st) e"
        by auto
      with rd rg okr lt Suc.prems(5) [unfolded unf] have res: "r = Inl e" "s' = s1" "c' = c" "tr' = tr2"
        by simp_all
      have "r = Inl e \<and> i < unat (irq_count s) \<and>
              tr' = tr @ concat (map (irq_block nd (name s)) [i..<i])
                       @ failed_iteration nd (name s) i (FailedRegister st) e"
        using res e lt by simp
      then have "\<exists>e f. r = Inl e \<and> i < unat (irq_count s) \<and>
              tr' = tr @ concat (map (irq_block nd (name s)) [i..<i]) @ failed_iteration nd (name s) i f e"
        by blast
      with res ok1 sc1 inv1 lt show ?case
        by (intro conjI exI [of _ i]) simp_all
    next
      assume ok2: "r2 = VMM_OK \<and> tr2 = tr @ irq_block nd (name s) i"
      with rd rg okr lt Suc.prems(5) [unfolded unf]
      have rec: "probe_irq_loop env nd s1 (Suc i) (Suc c) tr2 = (r, s', c', tr')"
        by simp
      from inv1 okr have inv2: "\<forall>j<Suc i. the (host_irqs s1) ! j = cfg_host_irq nd j"
        by (simp add: less_Suc_eq)
      from Suc.prems(1) cnt have m: "unat (irq_count s1) - Suc i = n" by simp
      from lt cnt have le: "Suc i \<le> unat (irq_count s1)" by simp
      from Suc.IH [OF m le ok1 inv2 rec]
      obtain k where ok': "arrays_ok s'" and sc': "same_scalars s1 s'"
        and k: "Suc i \<le> k" "k \<le> unat (irq_count s1)" "c' = Suc c + (k - Suc i)"
          "\<forall>j<k. the (host_irqs s') ! j = cfg_host_irq nd j"
        and alt3: "(r = VMM_OK \<and> k = unat (irq_count s1) \<and>
                     tr' = tr2 @ concat (map (irq_block nd (name s1)) [Suc i..<k]))
                   \<or> (\<exists>e f. r = Inl e \<and> k < unat (irq_count s1) \<and>
                         tr' = tr2 @ concat (map (irq_block nd (name s1)) [Suc i..<k])
                                  @ failed_iteration nd (name s1) k f e)"
        by blast
      from k(1) have upt: "[i..<k] = i # [Suc i..<k]" by (simp add: upt_conv_Cons)
      from alt3 ok2 nm cnt upt
      have "(r = VMM_OK \<and> k = unat (irq_count s) \<and>
               tr' = tr @ concat (map (irq_block nd (name s)) [i..<k]))
            \<or> (\<exists>e f. r = Inl e \<and> k < unat (irq_count s) \<and>
                  tr' = tr @ concat (map (irq_block nd (name s)) [i..<k])
                           @ failed_iteration nd (name s) k f e)"
        by auto
      moreover from k(1,3) have "c' = c + (k - i)" by simp
      moreover from k(1) have "i \<le> k" by simp
      moreover from k(2) cnt have "k \<le> unat (irq_count s)" by simp
      moreover from sc1 sc' have "same_scalars s s'" by (rule same_scalars_trans)
      ultimately show ?case using ok' k(4) by blast
    qed
  qed
qed

subsection \<open>The stages of platform_pt_probe\<close>

lemma table_ready_frees:
  assumes "table_ready nd s k"
  shows "free_if_set (host_irqs s) ObjHostIrqs
           (free_if_set (host_type_irqs s) ObjHostTypeIrqs
              (free_if_set (guest_irqs s) ObjGuestIrqs tr)) @ [VmmFree ObjState]
         = tr @ free_suffix nd"
proof (cases "irq_count s = 0")
  case True
  with assms have "cfg_irq_count nd = 0" by (simp add: table_ready_def)
  with assms True show ?thesis
    by (simp add: table_ready_def arrays_ok_def free_if_set_def free_suffix_def)
next
  case False
  then have "unat (irq_count s) \<noteq> 0" by (simp add: unat_eq_0)
  with assms have "cfg_irq_count nd \<noteq> 0" by (simp add: table_ready_def)
  with assms False show ?thesis
    by (auto simp: table_ready_def arrays_ok_def free_if_set_def free_suffix_def)
qed

lemma cleanupirqs_fail_eq:
  assumes "table_ready nd s k"
  shows "platform_pt_probe_cleanupirqs_fail e s k edev tr = (Inl e, edev, tr @ cleanup_suffix nd k)"
proof -
  from assms have m: "map (\<lambda>j. [HostIrqUnregister (the (host_irqs s) ! j),
                              HostIrqUnmarkRouted (the (host_irqs s) ! j)]) [0..<k]
                   = map (unregister_block nd) [0..<k]"
    by (simp add: table_ready_def unregister_block_def)
  have u: "unregister_irqs s k 0 tr = tr @ concat (map (unregister_block nd) [0..<k])"
    by (simp only: unregister_irqs_eq m)
  show ?thesis
    using table_ready_frees [OF assms, of "tr @ concat (map (unregister_block nd) [0..<k])"]
    by (simp add: platform_pt_probe_cleanupirqs_fail_def platform_pt_probe_freehtirqs_fail_def
          platform_pt_probe_freehirqs_fail_def platform_pt_probe_freestate_fail_def u
          cleanup_suffix_def)
qed

lemma table_ready_upd [simp]:
  "table_ready nd (s\<lparr>dev := d\<rparr>) k = table_ready nd s k"
  "table_ready nd (s\<lparr>dom_p := m\<rparr>) k = table_ready nd s k"
  "table_ready nd (s\<lparr>nb_notifier_call := b\<rparr>) k = table_ready nd s k"
  "table_ready nd (s\<lparr>nb_priority := p\<rparr>) k = table_ready nd s k"
  by (simp_all add: table_ready_def arrays_ok_def)

lemma probe_subscribe_cases:
  assumes rdy: "table_ready nd s k"
    and run: "probe_subscribe env edev s k tr = (r, edev', tr')"
  shows "(r = VMM_OK \<and> edev' = edev\<lparr>priv := Some (s\<lparr>nb_notifier_call := True, nb_priority := 0\<rparr>)\<rparr>
            \<and> tr' = tr @ [GuestAspaceRegisterClient 0 VMM_OK])
       \<or> (\<exists>e. r = Inl e \<and> edev' = edev
            \<and> tr' = tr @ [GuestAspaceRegisterClient 0 (Inl e)] @ iommu_release s @ cleanup_suffix nd k)"
proof (cases "vmm_guest_aspace_register_client env tr")
  case (Inl e)
  let ?s1 = "s\<lparr>nb_notifier_call := True, nb_priority := 0\<rparr>"
  from rdy have rdy1: "table_ready nd ?s1 k" by simp
  have "probe_subscribe env edev s k tr =
          platform_pt_probe_free_dom_fail e ?s1 k edev (tr @ [GuestAspaceRegisterClient 0 (Inl e)])"
    using Inl by (simp add: probe_subscribe_def Let_def)
  also have "\<dots> = (Inl e, edev,
       tr @ [GuestAspaceRegisterClient 0 (Inl e)] @ iommu_release s @ cleanup_suffix nd k)"
    by (simp add: platform_pt_probe_free_dom_fail_def platform_pt_probe_dref_dev_fail_def
          cleanupirqs_fail_eq [OF rdy1] iommu_release_def split: option.splits)
  finally have "r = Inl e" "edev' = edev"
      "tr' = tr @ [GuestAspaceRegisterClient 0 (Inl e)] @ iommu_release s @ cleanup_suffix nd k"
    using run by simp_all
  then show ?thesis by blast
next
  case (Inr u)
  then have "probe_subscribe env edev s k tr =
      (VMM_OK, edev\<lparr>priv := Some (s\<lparr>nb_notifier_call := True, nb_priority := 0\<rparr>)\<rparr>,
       tr @ [GuestAspaceRegisterClient 0 VMM_OK])"
    by (simp add: probe_subscribe_def Let_def)
  with run have "(r, edev', tr') =
      (VMM_OK, edev\<lparr>priv := Some (s\<lparr>nb_notifier_call := True, nb_priority := 0\<rparr>)\<rparr>,
       tr @ [GuestAspaceRegisterClient 0 VMM_OK])"
    by (simp only:)
  then show ?thesis by (elim Pair_inject) blast
qed


lemma probe_iommu_cases:
  assumes rdy: "table_ready nd s k" and fresh: "dev s = None" "dom_p s = None"
    and nd: "node edev = nd"
    and run: "probe_iommu env edev s k tr = (r, edev', tr')"
  obtains
    (not_found) dname where "read_string nd ''iommu-device'' = Some dname"
      "r = Inl VMM_EINVALID" "edev' = edev"
      "tr' = tr @ [DevtreeReadString ''iommu-device'' (Some dname), BusFindDeviceByName dname None]
                @ cleanup_suffix nd k"
  | (no_group) dname dv where "read_string nd ''iommu-device'' = Some dname"
      "iommu_group dv = None" "r = Inl VMM_EINVALID" "edev' = edev"
      "tr' = tr @ [DevtreeReadString ''iommu-device'' (Some dname), BusFindDeviceByName dname (Some dv)]
                @ cleanup_suffix nd k"
  | (no_domain) dname dv grp where "read_string nd ''iommu-device'' = Some dname"
      "iommu_group dv = Some grp" "r = Inl VMM_EFAIL" "edev' = edev"
      "tr' = tr @ [DevtreeReadString ''iommu-device'' (Some dname), BusFindDeviceByName dname (Some dv),
                   DevdrvRefDevice (dev_id dv), IommuDomainAlloc grp None, DevdrvDrefDevice (dev_id dv)]
                @ cleanup_suffix nd k"
  | (no_subscription) c e where "read_string nd ''iommu-device'' = iommu_name c" "iommu_cfg_ok c"
      "r = Inl e" "edev' = edev"
      "tr' = tr @ iommu_actions c @ [GuestAspaceRegisterClient 0 (Inl e)] @ iommu_undo c
                @ cleanup_suffix nd k"
  | (success) c where "read_string nd ''iommu-device'' = iommu_name c" "iommu_cfg_ok c" "r = VMM_OK"
      "edev' = edev\<lparr>priv := Some (s\<lparr>dev := iommu_dev c, dom_p := iommu_dom c,
                                      nb_notifier_call := True, nb_priority := 0\<rparr>)\<rparr>"
      "tr' = tr @ iommu_actions c @ [GuestAspaceRegisterClient 0 VMM_OK]"
proof (cases "read_string nd ''iommu-device''")
  case None
  let ?tr1 = "tr @ [DevtreeReadString ''iommu-device'' None]"
  from None nd run have sub: "probe_subscribe env edev s k ?tr1 = (r, edev', tr')"
    by (simp add: probe_iommu_def Let_def)
  have s_eq: "s\<lparr>dev := None, dom_p := None, nb_notifier_call := True, nb_priority := 0\<rparr>
              = s\<lparr>nb_notifier_call := True, nb_priority := 0\<rparr>"
    using fresh by simp
  from probe_subscribe_cases [OF rdy sub] show ?thesis
  proof (elim disjE conjE exE)
    assume "r = VMM_OK" "edev' = edev\<lparr>priv := Some (s\<lparr>nb_notifier_call := True, nb_priority := 0\<rparr>)\<rparr>"
      "tr' = ?tr1 @ [GuestAspaceRegisterClient 0 VMM_OK]"
    then show ?thesis using s_eq None by (intro success [of NoIommu]) simp_all
  next
    fix e assume "r = Inl e" "edev' = edev"
      "tr' = ?tr1 @ [GuestAspaceRegisterClient 0 (Inl e)] @ iommu_release s @ cleanup_suffix nd k"
    then show ?thesis using fresh None
      by (intro no_subscription [of NoIommu e]) (simp_all add: iommu_release_def)
  qed
next
  case (Some dname)
  let ?tr1 = "tr @ [DevtreeReadString ''iommu-device'' (Some dname)]"
  show ?thesis
  proof (cases "vmm_devdrv_bus_find_device_by_name env ?tr1 dname")
    case None
    from rdy have "table_ready nd (s\<lparr>dev := None\<rparr>) k" by simp
    from cleanupirqs_fail_eq [OF this] Some None nd run
    show ?thesis
      by (intro not_found [of dname]) (auto simp: probe_iommu_def Let_def)
  next
    case dv: (Some dv)
    let ?tr2 = "?tr1 @ [BusFindDeviceByName dname (Some dv)]"
    show ?thesis
    proof (cases "iommu_group dv")
      case None
      from rdy have "table_ready nd (s\<lparr>dev := Some dv\<rparr>) k" by simp
      from cleanupirqs_fail_eq [OF this] Some dv None nd run
      show ?thesis
        by (intro no_group [of dname dv]) (auto simp: probe_iommu_def Let_def)
    next
      case grp: (Some grp)
      let ?tr3 = "?tr2 @ [DevdrvRefDevice (dev_id dv)]"
      show ?thesis
      proof (cases "vmm_iommu_domain_alloc env ?tr3 grp")
        case None
        from rdy have "table_ready nd (s\<lparr>dev := Some dv, dom_p := None\<rparr>) k" by simp
        from cleanupirqs_fail_eq [OF this] Some dv grp None nd run
        show ?thesis
          by (intro no_domain [of dname dv grp])
             (auto simp: probe_iommu_def Let_def platform_pt_probe_dref_dev_fail_def)
      next
        case dmn: (Some dmn)
        let ?s2 = "s\<lparr>dev := Some dv, dom_p := Some dmn\<rparr>"
        let ?tr5 = "?tr3 @ [IommuDomainAlloc grp (Some dmn), IommuSetFaultHandler dmn]"
        from rdy have rdy2: "table_ready nd ?s2 k" by simp
        from Some dv grp dmn nd run
        have sub: "probe_subscribe env edev ?s2 k ?tr5 = (r, edev', tr')"
          by (simp add: probe_iommu_def Let_def)
        from probe_subscribe_cases [OF rdy2 sub] show ?thesis
        proof (elim disjE conjE exE)
          assume "r = VMM_OK"
            "edev' = edev\<lparr>priv := Some (?s2\<lparr>nb_notifier_call := True, nb_priority := 0\<rparr>)\<rparr>"
            "tr' = ?tr5 @ [GuestAspaceRegisterClient 0 VMM_OK]"
          then show ?thesis using Some grp
            by (intro success [of "WithIommu dname dv grp dmn"]) simp_all
        next
          fix e assume "r = Inl e" "edev' = edev"
            "tr' = ?tr5 @ [GuestAspaceRegisterClient 0 (Inl e)] @ iommu_release ?s2 @ cleanup_suffix nd k"
          then show ?thesis using Some grp
            by (intro no_subscription [of "WithIommu dname dv grp dmn" e])
               (simp_all add: iommu_release_def)
        qed
      qed
    qed
  qed
qed

lemma probe_irqs_cases:
  assumes ok: "arrays_ok s" and cnt: "unat (irq_count s) = cfg_irq_count nd"
    and nd: "node edev = nd"
    and run: "probe_irqs env edev s tr = (r, edev', tr')"
  obtains
    (loop_failed) k f e where "k < cfg_irq_count nd" "r = Inl e" "edev' = edev"
      "tr' = tr @ concat (map (irq_block nd (name s)) [0..<k]) @ failed_iteration nd (name s) k f e
                @ cleanup_suffix nd k"
  | (loop_done) s1 where "table_ready nd s1 (cfg_irq_count nd)" "same_scalars s s1"
      "probe_iommu env edev s1 (cfg_irq_count nd)
         (tr @ concat (map (irq_block nd (name s)) [0..<cfg_irq_count nd])) = (r, edev', tr')"
proof -
  obtain r1 s1 c1 tr1 where lp: "probe_irq_loop env nd s 0 0 tr = (r1, s1, c1, tr1)"
    by (cases "probe_irq_loop env nd s 0 0 tr") auto
  have "unat (irq_count s) - 0 = unat (irq_count s)" "0 \<le> unat (irq_count s)"
    "\<forall>j<0. the (host_irqs s) ! j = cfg_host_irq nd j"
    by simp_all
  from probe_irq_loop_shape [OF this(1) this(2) ok this(3) lp]
  obtain k where ok1: "arrays_ok s1" and sc: "same_scalars s s1"
    and k: "k \<le> unat (irq_count s)" "c1 = k" "\<forall>j<k. the (host_irqs s1) ! j = cfg_host_irq nd j"
    and alt: "(r1 = VMM_OK \<and> k = unat (irq_count s) \<and>
                tr1 = tr @ concat (map (irq_block nd (name s)) [0..<k]))
              \<or> (\<exists>e f. r1 = Inl e \<and> k < unat (irq_count s) \<and>
                    tr1 = tr @ concat (map (irq_block nd (name s)) [0..<k])
                             @ failed_iteration nd (name s) k f e)"
    by auto
  from sc cnt have cnt1: "unat (irq_count s1) = cfg_irq_count nd" by (simp add: same_scalars_def)
  with ok1 k(3) have rdy: "table_ready nd s1 k" by (simp add: table_ready_def)
  from alt show ?thesis
  proof (elim disjE conjE exE)
    assume a: "r1 = VMM_OK" "k = unat (irq_count s)"
      "tr1 = tr @ concat (map (irq_block nd (name s)) [0..<k])"
    with lp run nd k(2) have "probe_iommu env edev s1 k tr1 = (r, edev', tr')"
      by (simp add: probe_irqs_def)
    with a cnt rdy sc show ?thesis by (intro loop_done [of s1]) simp_all
  next
    fix e f assume a: "r1 = Inl e" "k < unat (irq_count s)"
      "tr1 = tr @ concat (map (irq_block nd (name s)) [0..<k]) @ failed_iteration nd (name s) k f e"
    with lp run nd k(2) have "platform_pt_probe_cleanupirqs_fail e s1 k edev tr1 = (r, edev', tr')"
      by (simp add: probe_irqs_def)
    with cleanupirqs_fail_eq [OF rdy, of e edev tr1]
    have "r = Inl e" "edev' = edev" "tr' = tr1 @ cleanup_suffix nd k" by simp_all
    with a cnt show ?thesis by (intro loop_failed [of k e f]) simp_all
  qed
qed

lemma probe_arrays_cases:
  assumes nd: "node edev = nd"
    and run: "probe_arrays env g edev s tr = (r, edev', tr')"
  obtains
    (array_alloc) obj where "obj \<noteq> ObjState" "cfg_irq_count nd \<noteq> 0" "r = Inl VMM_ENOMEM" "edev' = edev"
      "tr' = tr @ [DevtreeAttrlen ''host-interrupts'' (attrlen nd ''host-interrupts'')]
                @ array_alloc_failure obj"
  | (allocated) s3 where "arrays_ok s3" "unat (irq_count s3) = cfg_irq_count nd"
      "name s3 = name s" "guest s3 = guest_id g" "dev s3 = dev s" "dom_p s3 = dom_p s"
      "probe_irqs env edev s3 (tr @ tl (alloc_prefix nd)) = (r, edev', tr')"
proof -
  let ?len = "attrlen nd ''host-interrupts''"
  let ?tr0 = "tr @ [DevtreeAttrlen ''host-interrupts'' ?len]"
  let ?s0 = "s\<lparr>guest := guest_id g, irq_count := ?len div 8,
                 guest_irqs := None, host_irqs := None, host_type_irqs := None\<rparr>"
  let ?n = "unat (?len div 8)"
  show ?thesis
  proof (cases "?len div 8 = 0")
    case True
    then have z: "cfg_irq_count nd = 0" by (simp add: cfg_irq_count_def)
    from True run nd have "probe_irqs env edev ?s0 ?tr0 = (r, edev', tr')"
      by (simp add: probe_arrays_def Let_def)
    with True z show ?thesis
      by (intro allocated [of ?s0]) (simp_all add: arrays_ok_def alloc_prefix_def)
  next
    case False
    then have nz: "cfg_irq_count nd \<noteq> 0" by (simp add: cfg_irq_count_def unat_eq_0)
    let ?tr1 = "\<lambda>b. ?tr0 @ [VmmZalloc ObjHostIrqs b]"
    show ?thesis
    proof (cases "vmm_zalloc env ?tr0 ObjHostIrqs")
      case a1: False
      with False run nd have "r = Inl VMM_ENOMEM" "edev' = edev"
        "tr' = ?tr0 @ array_alloc_failure ObjHostIrqs"
        by (simp_all add: probe_arrays_def Let_def platform_pt_probe_freestate_fail_def)
      with nz show ?thesis by (intro array_alloc [of ObjHostIrqs]) simp_all
    next
      case a1: True
      let ?tr1 = "?tr0 @ [VmmZalloc ObjHostIrqs True]"
      show ?thesis
      proof (cases "vmm_zalloc env ?tr1 ObjHostTypeIrqs")
        case a2: False
        with False a1 run nd have "r = Inl VMM_ENOMEM" "edev' = edev"
          "tr' = ?tr0 @ array_alloc_failure ObjHostTypeIrqs"
          by (simp_all add: probe_arrays_def Let_def platform_pt_probe_freestate_fail_def
                platform_pt_probe_freehirqs_fail_def free_if_set_def)
        with nz show ?thesis by (intro array_alloc [of ObjHostTypeIrqs]) simp_all
      next
        case a2: True
        let ?tr2 = "?tr1 @ [VmmZalloc ObjHostTypeIrqs True]"
        show ?thesis
        proof (cases "vmm_zalloc env ?tr2 ObjGuestIrqs")
          case a3: False
          with False a1 a2 run nd have "r = Inl VMM_ENOMEM" "edev' = edev"
            "tr' = ?tr0 @ array_alloc_failure ObjGuestIrqs"
            by (simp_all add: probe_arrays_def Let_def platform_pt_probe_freestate_fail_def
                  platform_pt_probe_freehirqs_fail_def platform_pt_probe_freehtirqs_fail_def
                  free_if_set_def)
          with nz show ?thesis by (intro array_alloc [of ObjGuestIrqs]) simp_all
        next
          case a3: True
          let ?s3 = "?s0\<lparr>host_irqs := Some (replicate ?n 0), host_type_irqs := Some (replicate ?n 0),
                          guest_irqs := Some (replicate ?n 0)\<rparr>"
          from False a1 a2 a3 run nd
          have "probe_irqs env edev ?s3 (?tr2 @ [VmmZalloc ObjGuestIrqs True]) = (r, edev', tr')"
            by (simp add: probe_arrays_def Let_def)
          with False nz show ?thesis
            by (intro allocated [of ?s3])
               (simp_all add: arrays_ok_def alloc_prefix_def cfg_irq_count_def)
        qed
      qed
    qed
  qed
qed

subsection \<open>Every run of platform_pt_probe\<close>

lemma platform_pt_probe_cases:
  assumes run: "platform_pt_probe env g edev tr = (r, edev', tr')"
  obtains
    (state_alloc) "r = Inl VMM_ENOMEM" "edev' = edev" "tr' = tr @ [VmmZalloc ObjState False]"
  | (overflow) "name_size \<le> snd (probe_name g edev)" "r = Inl VMM_EOVERFLOW" "edev' = edev"
      "tr' = tr @ [VmmZalloc ObjState True, VmmFree ObjState]"
  | (array_alloc) obj where "obj \<noteq> ObjState" "cfg_irq_count (node edev) \<noteq> 0"
      "r = Inl VMM_ENOMEM" "edev' = edev"
      "tr' = tr @ [VmmZalloc ObjState True,
                   DevtreeAttrlen ''host-interrupts'' (attrlen (node edev) ''host-interrupts'')]
                @ array_alloc_failure obj"
  | (loop_failed) k f e where "k < cfg_irq_count (node edev)" "r = Inl e" "edev' = edev"
      "tr' = tr @ setup_trace (node edev) (fst (probe_name g edev)) k
                @ failed_iteration (node edev) (fst (probe_name g edev)) k f e
                @ cleanup_suffix (node edev) k"
  | (not_found) dname where "read_string (node edev) ''iommu-device'' = Some dname"
      "r = Inl VMM_EINVALID" "edev' = edev"
      "tr' = tr @ setup_trace (node edev) (fst (probe_name g edev)) (cfg_irq_count (node edev))
                @ [DevtreeReadString ''iommu-device'' (Some dname), BusFindDeviceByName dname None]
                @ cleanup_suffix (node edev) (cfg_irq_count (node edev))"
  | (no_group) dname dv where "read_string (node edev) ''iommu-device'' = Some dname"
      "iommu_group dv = None" "r = Inl VMM_EINVALID" "edev' = edev"
      "tr' = tr @ setup_trace (node edev) (fst (probe_name g edev)) (cfg_irq_count (node edev))
                @ [DevtreeReadString ''iommu-device'' (Some dname), BusFindDeviceByName dname (Some dv)]
                @ cleanup_suffix (node edev) (cfg_irq_count (node edev))"
  | (no_domain) dname dv grp where "read_string (node edev) ''iommu-device'' = Some dname"
      "iommu_group dv = Some grp" "r = Inl VMM_EFAIL" "edev' = edev"
      "tr' = tr @ setup_trace (node edev) (fst (probe_name g edev)) (cfg_irq_count (node edev))
                @ [DevtreeReadString ''iommu-device'' (Some dname), BusFindDeviceByName dname (Some dv),
                   DevdrvRefDevice (dev_id dv), IommuDomainAlloc grp None, DevdrvDrefDevice (dev_id dv)]
                @ cleanup_suffix (node edev) (cfg_irq_count (node edev))"
  | (no_subscription) c e where "read_string (node edev) ''iommu-device'' = iommu_name c" "iommu_cfg_ok c"
      "r = Inl e" "edev' = edev"
      "tr' = tr @ setup_trace (node edev) (fst (probe_name g edev)) (cfg_irq_count (node edev))
                @ iommu_actions c @ [GuestAspaceRegisterClient 0 (Inl e)] @ iommu_undo c
                @ cleanup_suffix (node edev) (cfg_irq_count (node edev))"
  | (success) c sf where "read_string (node edev) ''iommu-device'' = iommu_name c" "iommu_cfg_ok c"
      "r = VMM_OK" "edev' = edev\<lparr>priv := Some sf\<rparr>"
      "tr' = tr @ setup_trace (node edev) (fst (probe_name g edev)) (cfg_irq_count (node edev))
                @ iommu_actions c @ [GuestAspaceRegisterClient 0 VMM_OK]"
      "table_ready (node edev) sf (cfg_irq_count (node edev))"
      "name sf = fst (probe_name g edev)" "guest sf = guest_id g"
      "dev sf = iommu_dev c" "dom_p sf = iommu_dom c" "nb_notifier_call sf" "nb_priority sf = 0"
      "snd (probe_name g edev) < name_size"
proof (cases "vmm_zalloc env tr ObjState")
  case False
  with run show ?thesis by (intro state_alloc) (simp_all add: platform_pt_probe_def Let_def)
next
  case alloc: True
  let ?nd = "node edev" and ?nm = "fst (probe_name g edev)"
  let ?tr1 = "tr @ [VmmZalloc ObjState True]"
  show ?thesis
  proof (cases "name_size \<le> snd (probe_name g edev)")
    case True
    with alloc run show ?thesis
      by (intro overflow)
         (simp_all add: platform_pt_probe_def Let_def platform_pt_probe_freestate_fail_def
            split: prod.splits)
  next
    case fits: False
    with alloc run
    have arr: "probe_arrays env g edev (zeroed_state\<lparr>name := ?nm\<rparr>) ?tr1 = (r, edev', tr')"
      by (simp add: platform_pt_probe_def Let_def split: prod.splits)
    have pre: "?tr1 @ tl (alloc_prefix ?nd) = tr @ alloc_prefix ?nd"
      by (simp add: alloc_prefix_def)
    from refl arr show ?thesis
    proof (cases rule: probe_arrays_cases)
      case (array_alloc obj)
      then show ?thesis by (intro that(3) [of obj]) simp_all
    next
      case (allocated s3)
      from allocated(7) pre
      have irqs: "probe_irqs env edev s3 (tr @ alloc_prefix ?nd) = (r, edev', tr')" by simp
      from allocated(1,2) refl irqs show ?thesis
      proof (cases rule: probe_irqs_cases)
        case (loop_failed k f e)
        with allocated(3) show ?thesis
          by (intro that(4) [of k e f]) (simp_all add: setup_trace_def)
      next
        case (loop_done s1)
        from loop_done(2) allocated(3,4,5,6)
        have s1: "name s1 = ?nm" "guest s1 = guest_id g" "dev s1 = None" "dom_p s1 = None"
          by (simp_all add: same_scalars_def zeroed_state_def)
        from loop_done(3) allocated(3)
        have io: "probe_iommu env edev s1 (cfg_irq_count ?nd)
                    (tr @ setup_trace ?nd ?nm (cfg_irq_count ?nd)) = (r, edev', tr')"
          by (simp add: setup_trace_def)
        from loop_done(1) s1(3,4) refl io show ?thesis
        proof (cases rule: probe_iommu_cases)
          case (not_found dname)
          then show ?thesis by (intro that(5) [of dname]) simp_all
        next
          case (no_group dname dv)
          then show ?thesis by (intro that(6) [of dname dv]) simp_all
        next
          case (no_domain dname dv grp)
          then show ?thesis by (intro that(7) [of dname dv grp]) simp_all
        next
          case (no_subscription c e)
          then show ?thesis by (intro that(8) [of c e]) simp_all
        next
          case (success c)
          with loop_done(1) s1 fits show ?thesis
            by (intro that(9) [of c "s1\<lparr>dev := iommu_dev c, dom_p := iommu_dom c,
                                         nb_notifier_call := True, nb_priority := 0\<rparr>"])
               simp_all
        qed
      qed
    qed
  qed
qed

lemma held_Nil [simp]: "held [] res = 0"
  by (simp add: held_def)

lemma held_Cons [simp]: "held (a # as) res = held1 res a + held as res"
  by (simp add: held_def)

lemma held_append [simp]: "held (xs @ ys) res = held xs res + held ys res"
  by (simp add: held_def)

lemma held_concat_map: "held (concat (map F xs)) res = sum_list (map (\<lambda>x. held (F x) res) xs)"
  by (induction xs) simp_all

lemma held_blocks_balance:
  "held (concat (map (irq_block nd nm) xs)) res + held (concat (map (unregister_block nd) xs)) res = 0"
proof -
  have "\<And>i. held (irq_block nd nm i) res + held (unregister_block nd i) res = 0"
    by (simp add: irq_block_def read_block_def register_block_def unregister_block_def held1_def)
  then have "sum_list (map (\<lambda>i. held (irq_block nd nm i) res + held (unregister_block nd i) res) xs) = 0"
    by simp
  then show ?thesis by (simp add: held_concat_map sum_list_addf)
qed

lemma held_failed_iteration [simp]: "held (failed_iteration nd nm k f e) res = 0"
proof (cases f)
  case (FailedRead st)
  then show ?thesis by (cases st) (simp_all add: held1_def)
next
  case (FailedRegister st)
  then show ?thesis by (cases st) (simp_all add: held1_def read_block_def)
qed

lemma held_alloc_free_balance: "held (alloc_prefix nd) res + held (free_suffix nd) res = 0"
  by (simp add: alloc_prefix_def free_suffix_def held1_def)

lemma held_setup_cleanup:
  "held (setup_trace nd nm k) res + held (cleanup_suffix nd k) res = 0"
  using held_blocks_balance [of nd nm "[0..<k]" res] held_alloc_free_balance [of nd res]
  by (simp add: setup_trace_def cleanup_suffix_def)

lemma held_array_alloc_failure:
  "obj \<noteq> ObjState \<Longrightarrow>
   held ([VmmZalloc ObjState True, DevtreeAttrlen a len] @ array_alloc_failure obj) res = 0"
  by (cases obj) (simp_all add: held1_def)

lemma held_iommu_balance: "held (iommu_actions c) res + held (iommu_undo c) res = 0"
  by (cases c) (simp_all add: held1_def)

lemma held_wrapped:
  "held (setup_trace nd nm k @ mid @ cleanup_suffix nd k) res = held mid res"
  using held_setup_cleanup [of nd nm k res] by simp

lemma held_iommu_wrapped:
  "held (iommu_actions c @ mid @ iommu_undo c) res = held mid res"
  using held_iommu_balance [of c res] by simp

text \<open>A failed probe holds nothing when it returns.\<close>
lemma failed_probe_holds_nothing:
  assumes run: "platform_pt_probe env g edev tr = (Inl e, edev', tr')"
  shows "edev' = edev \<and> (\<exists>new. tr' = tr @ new \<and> (\<forall>res. held new res = 0))"
  using run
proof (cases rule: platform_pt_probe_cases)
  case state_alloc
  then show ?thesis by (simp add: held1_def)
next
  case overflow
  then show ?thesis by (simp add: held1_def)
next
  case (array_alloc obj)
  then show ?thesis using held_array_alloc_failure by simp
next
  case (loop_failed k f e)
  then show ?thesis
    using held_wrapped [of "node edev" "fst (probe_name g edev)" k "failed_iteration _ _ _ _ _"]
    by simp
next
  case (not_found dname)
  then show ?thesis
    using held_wrapped [of "node edev" "fst (probe_name g edev)" "cfg_irq_count (node edev)"
        "[DevtreeReadString ''iommu-device'' (Some dname), BusFindDeviceByName dname None]"]
    by (simp add: held1_def)
next
  case (no_group dname dv)
  then show ?thesis
    using held_wrapped [of "node edev" "fst (probe_name g edev)" "cfg_irq_count (node edev)"
        "[DevtreeReadString ''iommu-device'' (Some dname), BusFindDeviceByName dname (Some dv)]"]
    by (simp add: held1_def)
next
  case (no_domain dname dv grp)
  then show ?thesis
    using held_wrapped [of "node edev" "fst (probe_name g edev)" "cfg_irq_count (node edev)"
        "[DevtreeReadString ''iommu-device'' (Some dname), BusFindDeviceByName dname (Some dv),
          DevdrvRefDevice (dev_id dv), IommuDomainAlloc grp None, DevdrvDrefDevice (dev_id dv)]"]
    by (simp add: held1_def)
next
  case (no_subscription c e)
  have "held (setup_trace (node edev) (fst (probe_name g edev)) (cfg_irq_count (node edev))
                @ iommu_actions c @ [GuestAspaceRegisterClient 0 (Inl e)] @ iommu_undo c
                @ cleanup_suffix (node edev) (cfg_irq_count (node edev))) res = 0" for res
    using held_setup_cleanup [of "node edev" "fst (probe_name g edev)" "cfg_irq_count (node edev)" res]
      held_iommu_balance [of c res]
    by (simp add: held1_def)
  with no_subscription show ?thesis by blast
next
  case (success c sf)
  then show ?thesis by simp
qed

subsection \<open>Reading the traces of platform_pt_probe\<close>

lemma new_actions_append [simp]: "new_actions tr (tr @ xs) = xs"
  by (simp add: new_actions_def)

lemma new_actions_self [simp]: "new_actions tr tr = []"
  by (simp add: new_actions_def)

lemma irq_errors_simps [simp]:
  "irq_errors [] = []"
  "irq_errors (a # as) = (case irq_step_error a of Some e \<Rightarrow> e # irq_errors as | None \<Rightarrow> irq_errors as)"
  "irq_errors (xs @ ys) = irq_errors xs @ irq_errors ys"
  by (simp_all add: irq_errors_def List.map_filter_def split: option.splits)

lemma read_errors_simps [simp]:
  "read_errors [] = []"
  "read_errors (a # as) = (case read_error a of Some e \<Rightarrow> e # read_errors as | None \<Rightarrow> read_errors as)"
  "read_errors (xs @ ys) = read_errors xs @ read_errors ys"
  by (simp_all add: read_errors_def List.map_filter_def split: option.splits)

lemma irq_errors_concat: "(\<And>x. irq_errors (F x) = []) \<Longrightarrow> irq_errors (concat (map F xs)) = []"
  by (induction xs) simp_all

lemma read_errors_concat: "(\<And>x. read_errors (F x) = []) \<Longrightarrow> read_errors (concat (map F xs)) = []"
  by (induction xs) simp_all

lemma errors_setup_trace [simp]:
  "irq_errors (setup_trace nd nm k) = []" "read_errors (setup_trace nd nm k) = []"
  by (simp_all add: setup_trace_def alloc_prefix_def irq_errors_concat read_errors_concat
        irq_block_def read_block_def register_block_def)

lemma errors_cleanup_suffix [simp]:
  "irq_errors (cleanup_suffix nd k) = []" "read_errors (cleanup_suffix nd k) = []"
  by (simp_all add: cleanup_suffix_def free_suffix_def irq_errors_concat read_errors_concat
        unregister_block_def)

lemma errors_read_block [simp]:
  "irq_errors (read_block nd k) = []" "read_errors (read_block nd k) = []"
  by (simp_all add: read_block_def)

lemma errors_failed_reads [simp]:
  "irq_errors (failed_reads nd k rs e) = []" "read_errors (failed_reads nd k rs e) = [e]"
  by (cases rs; simp)+

lemma errors_failed_register [simp]:
  "irq_errors (failed_register h t nm st e) = [e]" "read_errors (failed_register h t nm st e) = []"
  by (cases st; simp)+

lemma errors_iommu [simp]:
  "irq_errors (iommu_actions c) = []" "read_errors (iommu_actions c) = []"
  "irq_errors (iommu_undo c) = []" "read_errors (iommu_undo c) = []"
  by (cases c; simp)+

lemma errors_array_alloc_failure [simp]:
  "irq_errors (array_alloc_failure obj) = []" "read_errors (array_alloc_failure obj) = []"
  by (cases obj; simp)+

lemma cleanup_suffix_nonempty_table:
  "k < cfg_irq_count nd \<Longrightarrow>
   cleanup_suffix nd k =
     concat (map (\<lambda>i. [HostIrqUnregister (cfg_host_irq nd i), HostIrqUnmarkRouted (cfg_host_irq nd i)])
               [0..<k])
     @ [VmmFree ObjGuestIrqs, VmmFree ObjHostTypeIrqs, VmmFree ObjHostIrqs, VmmFree ObjState]"
proof -
  assume "k < cfg_irq_count nd"
  then have "cfg_irq_count nd \<noteq> 0" by simp
  moreover have "unregister_block nd = (\<lambda>i. [HostIrqUnregister (cfg_host_irq nd i),
                                               HostIrqUnmarkRouted (cfg_host_irq nd i)])"
    by (rule ext) (simp add: unregister_block_def)
  ultimately show ?thesis by (simp add: cleanup_suffix_def free_suffix_def)
qed


lemma no_iommu_call_in_setup [simp]: "is_iommu_call a \<Longrightarrow> a \<notin> set (setup_trace nd nm k)"
  by (auto simp: setup_trace_def alloc_prefix_def irq_block_def read_block_def register_block_def)

lemma no_iommu_call_in_cleanup [simp]: "is_iommu_call a \<Longrightarrow> a \<notin> set (cleanup_suffix nd k)"
  by (auto simp: cleanup_suffix_def free_suffix_def unregister_block_def)

lemma no_iommu_call_in_failed_iteration [simp]:
  "is_iommu_call a \<Longrightarrow> a \<notin> set (failed_iteration nd nm k f e)"
proof (cases f)
  case (FailedRead rs)
  assume "is_iommu_call a"
  with FailedRead show ?thesis by (cases rs) auto
next
  case (FailedRegister st)
  assume "is_iommu_call a"
  with FailedRegister show ?thesis by (cases st) (auto simp: read_block_def)
qed

lemma no_iommu_call_in_array_alloc_failure [simp]:
  "is_iommu_call a \<Longrightarrow> a \<notin> set (array_alloc_failure obj)"
  by (cases obj) auto

lemma device_not_found_outcome:
  assumes run: "platform_pt_probe env g edev tr = (r, edev', tr')"
    and nf: "BusFindDeviceByName dname None \<in> set (new_actions tr tr')"
  shows "r = Inl VMM_EINVALID \<and> edev' = edev \<and>
         (\<forall>d. DevdrvRefDevice d \<notin> set (new_actions tr tr')) \<and>
         new_actions tr tr' =
           setup_trace (node edev) (fst (probe_name g edev)) (cfg_irq_count (node edev))
           @ [DevtreeReadString ''iommu-device'' (Some dname), BusFindDeviceByName dname None]
           @ cleanup_suffix (node edev) (cfg_irq_count (node edev))"
  using run
proof (cases rule: platform_pt_probe_cases)
  case (not_found dname')
  with nf show ?thesis by simp
next
  case (no_subscription c e)
  with nf show ?thesis by (cases c) simp_all
next
  case (success c sf)
  with nf show ?thesis by (cases c) simp_all
qed (use nf in \<open>simp_all\<close>)

lemma no_group_outcome:
  assumes run: "platform_pt_probe env g edev tr = (r, edev', tr')"
    and fd: "BusFindDeviceByName dname (Some dv) \<in> set (new_actions tr tr')"
    and ng: "iommu_group dv = None"
  shows "r = Inl VMM_EINVALID \<and> edev' = edev \<and>
         (\<forall>d. DevdrvRefDevice d \<notin> set (new_actions tr tr')) \<and>
         new_actions tr tr' =
           setup_trace (node edev) (fst (probe_name g edev)) (cfg_irq_count (node edev))
           @ [DevtreeReadString ''iommu-device'' (Some dname), BusFindDeviceByName dname (Some dv)]
           @ cleanup_suffix (node edev) (cfg_irq_count (node edev))"
  using run
proof (cases rule: platform_pt_probe_cases)
  case (no_group dname' dv')
  with fd show ?thesis by simp
next
  case (no_domain dname' dv' grp)
  with fd ng show ?thesis by auto
next
  case (no_subscription c e)
  with fd ng show ?thesis by (cases c) auto
next
  case (success c sf)
  with fd ng show ?thesis by (cases c) auto
qed (use fd in \<open>simp_all\<close>)

lemma no_domain_outcome:
  assumes run: "platform_pt_probe env g edev tr = (r, edev', tr')"
    and nd: "IommuDomainAlloc grp None \<in> set (new_actions tr tr')"
  shows "r = Inl VMM_EFAIL \<and> edev' = edev \<and>
         (\<exists>dname dv. iommu_group dv = Some grp \<and>
            new_actions tr tr' =
              setup_trace (node edev) (fst (probe_name g edev)) (cfg_irq_count (node edev))
              @ [DevtreeReadString ''iommu-device'' (Some dname), BusFindDeviceByName dname (Some dv),
                 DevdrvRefDevice (dev_id dv), IommuDomainAlloc grp None, DevdrvDrefDevice (dev_id dv)]
              @ cleanup_suffix (node edev) (cfg_irq_count (node edev)))"
  using run
proof (cases rule: platform_pt_probe_cases)
  case (no_domain dname' dv' grp')
  with nd have "grp' = grp" by simp
  with no_domain show ?thesis by auto
next
  case (no_subscription c e)
  with nd show ?thesis by (cases c) simp_all
next
  case (success c sf)
  with nd show ?thesis by (cases c) simp_all
qed (use nd in \<open>simp_all\<close>)

lemma iommu_success_outcome:
  assumes run: "platform_pt_probe env g edev tr = (VMM_OK, edev', tr')"
    and cfg: "read_string (node edev) ''iommu-device'' = Some dname"
  shows "\<exists>dv grp dmn sf. edev' = edev\<lparr>priv := Some sf\<rparr> \<and> dev sf = Some dv \<and> dom_p sf = Some dmn \<and>
           new_actions tr tr' =
             setup_trace (node edev) (fst (probe_name g edev)) (cfg_irq_count (node edev))
             @ [DevtreeReadString ''iommu-device'' (Some dname), BusFindDeviceByName dname (Some dv),
                DevdrvRefDevice (dev_id dv), IommuDomainAlloc grp (Some dmn),
                IommuSetFaultHandler dmn, GuestAspaceRegisterClient 0 VMM_OK]"
  using run
proof (cases rule: platform_pt_probe_cases)
  case (success c sf)
  show ?thesis
  proof (cases c)
    case NoIommu
    with success(1) cfg show ?thesis by simp
  next
    case (WithIommu dname' dv grp dmn)
    with success(1) cfg have "dname' = dname" by simp
    with success WithIommu show ?thesis by auto
  qed
qed simp_all

lemma line_type_append:
  "line_type (xs @ ys) h = (case line_type ys h of Some t \<Rightarrow> Some t | None \<Rightarrow> line_type xs h)"
  by (induction xs h rule: line_type.induct) (simp_all split: option.splits)

lemma held_register_block:
  "held (failed_register h t nm st e) res = 0"
  by (cases st) (simp_all add: held1_def)


subsection \<open>Concrete runs\<close>

lemmas probe_eval =
  platform_pt_probe_def probe_name_def strlcpy_def strlcat_def name_size_def zeroed_state_def
  probe_arrays_def probe_irqs_def probe_irq_loop.simps probe_read_irqs_def probe_register_irq_def
  probe_iommu_def probe_subscribe_def platform_pt_probe_free_dom_fail_def
  platform_pt_probe_dref_dev_fail_def platform_pt_probe_cleanupirqs_fail_def
  platform_pt_probe_freehtirqs_fail_def platform_pt_probe_freehirqs_fail_def
  platform_pt_probe_freestate_fail_def unregister_irqs.simps free_if_set_def
  VMM_DEVTREE_INTERRUPTS_ATTR_NAME_def Let_def

lemma replicate_2: "replicate 2 x = [x, x]"
  by (simp add: numeral_2_eq_2)

lemmas example_defs = replicate_2
  example_env_def example_guest_def example_edev_def example_node_def
  example_first_line_def example_both_lines_def example_teardown_def

lemma example_probe_run:
  "platform_pt_probe example_env example_guest example_edev [] =
     (VMM_OK,
      example_edev\<lparr>priv := Some
        \<lparr>name = ''g0/eth0'', guest = 1, irq_count = 2,
         host_irqs = Some [40, 41], host_type_irqs = Some [4, 4], guest_irqs = Some [8, 9],
         dev = Some \<lparr>dev_id = 7, iommu_group = Some 3\<rparr>, dom_p = Some 9,
         nb_notifier_call = True, nb_priority = 0\<rparr>\<rparr>,
      example_both_lines @
      [DevtreeReadString ''iommu-device'' (Some ''smmu0''),
       BusFindDeviceByName ''smmu0'' (Some \<lparr>dev_id = 7, iommu_group = Some 3\<rparr>),
       DevdrvRefDevice 7, IommuDomainAlloc 3 (Some 9), IommuSetFaultHandler 9,
       GuestAspaceRegisterClient 0 VMM_OK])"
  by (simp add: probe_eval example_defs)

lemma register_41_failure_run:
  "platform_pt_probe env_register_41_fails example_guest example_edev [] =
     (Inl VMM_EFAIL, example_edev, register_41_failure_trace)"
  by (simp add: probe_eval example_defs env_register_41_fails_def register_41_failure_trace_def)

lemma mark_routed_failure_run:
  "platform_pt_probe env_mark_routed_fails example_guest example_edev [] =
     (Inl (VMM_EOTHER 16), example_edev,
      [VmmZalloc ObjState True, DevtreeAttrlen ''host-interrupts'' 16,
       VmmZalloc ObjHostIrqs True, VmmZalloc ObjHostTypeIrqs True, VmmZalloc ObjGuestIrqs True,
       DevtreeReadU32 ''host-interrupts'' 0 (Inr 40), DevtreeReadU32 ''host-interrupts'' 1 (Inr 4),
       DevtreeReadU32 ''interrupts'' 0 (Inr 8),
       HostIrqSetType 40 4 VMM_OK, HostIrqMarkRouted 40 (Inl (VMM_EOTHER 16)),
       VmmFree ObjGuestIrqs, VmmFree ObjHostTypeIrqs, VmmFree ObjHostIrqs, VmmFree ObjState])"
  by (simp add: probe_eval example_defs env_mark_routed_fails_def)

lemma short_node_run:
  "platform_pt_probe example_env example_guest \<lparr>node = short_node, priv = None\<rparr> [] =
     (Inl VMM_EINVALID, \<lparr>node = short_node, priv = None\<rparr>,
      example_first_line @
      [DevtreeReadU32 ''host-interrupts'' 2 (Inr 41), DevtreeReadU32 ''host-interrupts'' 3 (Inr 4),
       DevtreeReadU32 ''interrupts'' 1 (Inl VMM_EINVALID),
       HostIrqUnregister 40, HostIrqUnmarkRouted 40,
       VmmFree ObjGuestIrqs, VmmFree ObjHostTypeIrqs, VmmFree ObjHostIrqs, VmmFree ObjState])"
  by (simp add: probe_eval example_defs short_node_def)

lemma no_device_run:
  "platform_pt_probe env_no_device example_guest example_edev [] =
     (Inl VMM_EINVALID, example_edev,
      example_both_lines @
      [DevtreeReadString ''iommu-device'' (Some ''smmu0''), BusFindDeviceByName ''smmu0'' None]
      @ example_teardown)"
  by (simp add: probe_eval example_defs env_no_device_def)

lemma no_group_run:
  "platform_pt_probe env_no_group example_guest example_edev [] =
     (Inl VMM_EINVALID, example_edev,
      example_both_lines @
      [DevtreeReadString ''iommu-device'' (Some ''smmu0''),
       BusFindDeviceByName ''smmu0'' (Some \<lparr>dev_id = 7, iommu_group = None\<rparr>)]
      @ example_teardown)"
  by (simp add: probe_eval example_defs env_no_group_def)

lemma no_domain_run:
  "platform_pt_probe env_no_domain example_guest example_edev [] =
     (Inl VMM_EFAIL, example_edev,
      example_both_lines @
      [DevtreeReadString ''iommu-device'' (Some ''smmu0''),
       BusFindDeviceByName ''smmu0'' (Some \<lparr>dev_id = 7, iommu_group = Some 3\<rparr>),
       DevdrvRefDevice 7, IommuDomainAlloc 3 None, DevdrvDrefDevice 7]
      @ example_teardown)"
  by (simp add: probe_eval example_defs env_no_domain_def)

lemma long_guest_name:
  "probe_name long_guest \<lparr>node = unnamed_node, priv = None\<rparr> = (replicate 63 CHR ''g'', 63)"
  by (simp add: probe_name_def strlcpy_def strlcat_def name_size_def zeroed_state_def
        long_guest_def unnamed_node_def)

lemma long_guest_run:
  "platform_pt_probe example_env long_guest \<lparr>node = unnamed_node, priv = None\<rparr> [] =
     (VMM_OK,
      \<lparr>node = unnamed_node,
       priv = Some \<lparr>name = replicate 63 CHR ''g'', guest = 2, irq_count = 0,
                    host_irqs = None, host_type_irqs = None, guest_irqs = None,
                    dev = None, dom_p = None, nb_notifier_call = True, nb_priority = 0\<rparr>\<rparr>,
      [VmmZalloc ObjState True, DevtreeAttrlen ''host-interrupts'' 0,
       DevtreeReadString ''iommu-device'' None, GuestAspaceRegisterClient 0 VMM_OK])"
  unfolding platform_pt_probe_def long_guest_name
  by (simp add: name_size_def zeroed_state_def
        probe_arrays_def probe_irqs_def probe_irq_loop.simps probe_iommu_def probe_subscribe_def
        Let_def example_env_def unnamed_node_def long_guest_def)

subsection \<open>Failures of the registration loop\<close>

text \<open>
  Claim C1. If, during a probe, a host-IRQ call of the registration loop (set type, mark
  routed or register) fails with error \<open>e\<close>, then probe returns \<open>e\<close> and leaves the device
  as it was. The failure happened at some index \<open>k\<close> below the interrupt count, and the calls
  of the probe are exactly: the allocations and the complete iterations \<open>0..k-1\<close>; the reads
  of iteration \<open>k\<close> and its host-IRQ calls up to the failing one (followed by the unmark of
  line \<open>k\<close> when it was the registration that failed); unregister and unmark of the lines
  \<open>0..k-1\<close>; the frees of the three arrays and of the state. Nothing remains held: for every
  resource (routed line, handler, heap block, device reference, domain, subscription) the
  probe's acquisitions and releases balance.
\<close>
theorem irq_step_failure_unwinds:
  assumes run: "platform_pt_probe env g edev tr = (r, edev', tr')"
    and fail: "e \<in> set (irq_errors (new_actions tr tr'))"
  shows "r = Inl e \<and> edev' = edev \<and>
         (\<exists>k st. k < cfg_irq_count (node edev) \<and>
            new_actions tr tr' =
              setup_trace (node edev) (fst (probe_name g edev)) k
              @ read_block (node edev) k
              @ failed_register (cfg_host_irq (node edev) k) (cfg_host_type (node edev) k)
                  (fst (probe_name g edev)) st e
              @ concat (map (\<lambda>i. [HostIrqUnregister (cfg_host_irq (node edev) i),
                                    HostIrqUnmarkRouted (cfg_host_irq (node edev) i)]) [0..<k])
              @ [VmmFree ObjGuestIrqs, VmmFree ObjHostTypeIrqs, VmmFree ObjHostIrqs,
                 VmmFree ObjState]) \<and>
         (\<forall>res. held (new_actions tr tr') res = 0)"
  using run
proof (cases rule: platform_pt_probe_cases)
  case (loop_failed k f e')
  show ?thesis
  proof (cases f)
    case (FailedRead rs)
    with loop_failed fail show ?thesis by simp
  next
    case (FailedRegister st)
    with loop_failed fail have e: "e' = e" by simp
    from loop_failed(1) have cl: "cleanup_suffix (node edev) k =
        concat (map (\<lambda>i. [HostIrqUnregister (cfg_host_irq (node edev) i),
                            HostIrqUnmarkRouted (cfg_host_irq (node edev) i)]) [0..<k])
        @ [VmmFree ObjGuestIrqs, VmmFree ObjHostTypeIrqs, VmmFree ObjHostIrqs, VmmFree ObjState]"
      by (rule cleanup_suffix_nonempty_table)
    from loop_failed(2) e have r: "r = Inl e" by simp
    from failed_probe_holds_nothing [OF run [unfolded r]]
    have h: "\<forall>res. held (new_actions tr tr') res = 0" by auto
    have "new_actions tr tr' =
              setup_trace (node edev) (fst (probe_name g edev)) k
              @ read_block (node edev) k
              @ failed_register (cfg_host_irq (node edev) k) (cfg_host_type (node edev) k)
                  (fst (probe_name g edev)) st e
              @ concat (map (\<lambda>i. [HostIrqUnregister (cfg_host_irq (node edev) i),
                                    HostIrqUnmarkRouted (cfg_host_irq (node edev) i)]) [0..<k])
              @ [VmmFree ObjGuestIrqs, VmmFree ObjHostTypeIrqs, VmmFree ObjHostIrqs,
                 VmmFree ObjState]"
      using loop_failed(4) FailedRegister e cl by simp
    with r loop_failed(1,3) h show ?thesis by blast
  qed
qed (use fail in \<open>simp_all\<close>)

theorem irq_step_failure_unwinds_witness:
  "platform_pt_probe env_register_41_fails example_guest example_edev [] =
     (Inl VMM_EFAIL, example_edev, register_41_failure_trace) \<and>
   VMM_EFAIL \<in> set (irq_errors (new_actions [] register_41_failure_trace)) \<and>
   (\<forall>res. held (new_actions [] register_41_failure_trace) res = 0)"
proof -
  have fail: "VMM_EFAIL \<in> set (irq_errors (new_actions [] register_41_failure_trace))"
    by (simp add: new_actions_def register_41_failure_trace_def example_first_line_def)
  from irq_step_failure_unwinds [OF register_41_failure_run fail] register_41_failure_run fail
  show ?thesis by blast
qed

text \<open>
  Claim C8, as the code has it. Reading and registering share one loop: the calls of a
  probe in which a device-tree read fails with \<open>e\<close> at index \<open>k\<close> are the allocations,
  then for each index below \<open>k\<close> its three reads followed by its three host-IRQ calls,
  then the reads of index \<open>k\<close> up to the failing one, then unregister and unmark of lines
  \<open>0..k-1\<close>, then the frees of the arrays and of the state. So lines \<open>0..k-1\<close> are
  registered before triple \<open>k\<close> is read; the failed read makes probe return \<open>e\<close> with the
  device as it was and nothing held.
\<close>
theorem read_failure_unwinds:
  assumes run: "platform_pt_probe env g edev tr = (r, edev', tr')"
    and fail: "e \<in> set (read_errors (new_actions tr tr'))"
  shows "r = Inl e \<and> edev' = edev \<and>
         (\<exists>k rs. k < cfg_irq_count (node edev) \<and>
            new_actions tr tr' =
              alloc_prefix (node edev)
              @ concat (map (\<lambda>i. read_block (node edev) i
                                  @ register_block (cfg_host_irq (node edev) i)
                                      (cfg_host_type (node edev) i) (fst (probe_name g edev)))
                          [0..<k])
              @ failed_reads (node edev) k rs e
              @ concat (map (\<lambda>i. [HostIrqUnregister (cfg_host_irq (node edev) i),
                                    HostIrqUnmarkRouted (cfg_host_irq (node edev) i)]) [0..<k])
              @ [VmmFree ObjGuestIrqs, VmmFree ObjHostTypeIrqs, VmmFree ObjHostIrqs,
                 VmmFree ObjState]) \<and>
         (\<forall>res. held (new_actions tr tr') res = 0)"
  using run
proof (cases rule: platform_pt_probe_cases)
  case (loop_failed k f e')
  show ?thesis
  proof (cases f)
    case (FailedRegister st)
    with loop_failed fail show ?thesis by simp
  next
    case (FailedRead rs)
    with loop_failed fail have e: "e' = e" by simp
    from loop_failed(1) have cl: "cleanup_suffix (node edev) k =
        concat (map (\<lambda>i. [HostIrqUnregister (cfg_host_irq (node edev) i),
                            HostIrqUnmarkRouted (cfg_host_irq (node edev) i)]) [0..<k])
        @ [VmmFree ObjGuestIrqs, VmmFree ObjHostTypeIrqs, VmmFree ObjHostIrqs, VmmFree ObjState]"
      by (rule cleanup_suffix_nonempty_table)
    have blk: "irq_block (node edev) (fst (probe_name g edev)) =
        (\<lambda>i. read_block (node edev) i
               @ register_block (cfg_host_irq (node edev) i) (cfg_host_type (node edev) i)
                   (fst (probe_name g edev)))"
      by (rule ext) (simp add: irq_block_def)
    from loop_failed(2) e have r: "r = Inl e" by simp
    from failed_probe_holds_nothing [OF run [unfolded r]]
    have h: "\<forall>res. held (new_actions tr tr') res = 0" by auto
    have "new_actions tr tr' =
              alloc_prefix (node edev)
              @ concat (map (\<lambda>i. read_block (node edev) i
                                  @ register_block (cfg_host_irq (node edev) i)
                                      (cfg_host_type (node edev) i) (fst (probe_name g edev)))
                          [0..<k])
              @ failed_reads (node edev) k rs e
              @ concat (map (\<lambda>i. [HostIrqUnregister (cfg_host_irq (node edev) i),
                                    HostIrqUnmarkRouted (cfg_host_irq (node edev) i)]) [0..<k])
              @ [VmmFree ObjGuestIrqs, VmmFree ObjHostTypeIrqs, VmmFree ObjHostIrqs,
                 VmmFree ObjState]"
      using loop_failed(4) FailedRead e cl by (simp add: setup_trace_def blk)
    with r loop_failed(1,3) h show ?thesis by blast
  qed
qed (use fail in \<open>simp_all\<close>)

theorem read_failure_unwinds_witness:
  "platform_pt_probe example_env example_guest \<lparr>node = short_node, priv = None\<rparr> [] =
     (Inl VMM_EINVALID, \<lparr>node = short_node, priv = None\<rparr>, short_node_trace) \<and>
   VMM_EINVALID \<in> set (read_errors (new_actions [] short_node_trace)) \<and>
   (\<forall>res. held (new_actions [] short_node_trace) res = 0)"
proof -
  have run: "platform_pt_probe example_env example_guest \<lparr>node = short_node, priv = None\<rparr> [] =
     (Inl VMM_EINVALID, \<lparr>node = short_node, priv = None\<rparr>, short_node_trace)"
    using short_node_run by (simp add: short_node_trace_def example_first_line_def)
  have fail: "VMM_EINVALID \<in> set (read_errors (new_actions [] short_node_trace))"
    by (simp add: new_actions_def short_node_trace_def)
  from read_failure_unwinds [OF run fail] run fail show ?thesis by blast
qed

text \<open>
  Claim C8 as stated fails: on a node with two (host line, type) pairs but one guest line,
  host line 40 has its type set, is marked routed and gets its handler (positions 8 to 10
  of the trace) before the second triple is read (positions 11 to 13), and the third read
  of that triple fails.
\<close>
theorem probe_registers_before_all_triples_read:
  "platform_pt_probe example_env example_guest \<lparr>node = short_node, priv = None\<rparr> [] =
     (Inl VMM_EINVALID, \<lparr>node = short_node, priv = None\<rparr>, short_node_trace) \<and>
   short_node_trace ! 8 = HostIrqSetType 40 4 VMM_OK \<and>
   short_node_trace ! 9 = HostIrqMarkRouted 40 VMM_OK \<and>
   short_node_trace ! 10 = HostIrqRegister 40 ''g0/eth0'' VMM_OK \<and>
   short_node_trace ! 11 = DevtreeReadU32 ''host-interrupts'' 2 (Inr 41) \<and>
   short_node_trace ! 13 = DevtreeReadU32 ''interrupts'' 1 (Inl VMM_EINVALID)"
  using short_node_run by (simp add: short_node_trace_def example_first_line_def)

subsection \<open>The three host-IRQ calls of one index\<close>

text \<open>
  Claim C5, as the code has it. For one index the code calls set-type, then mark-routed,
  then register, on the host line of that index, and stops at the first call that fails,
  returning that call's error. A failed registration is followed by unmark-routed of the
  line, so a failure leaves nothing held. No call restores a trigger type: whenever the
  set-type call succeeded, the line's trigger type after these calls is the configured
  one, also when a later call failed.
\<close>
theorem probe_register_irq_steps:
  assumes run: "probe_register_irq env s i tr = (r, tr')"
  shows "((r = VMM_OK \<and>
            new_actions tr tr' =
              [HostIrqSetType (the (host_irqs s) ! i) (the (host_type_irqs s) ! i) VMM_OK,
               HostIrqMarkRouted (the (host_irqs s) ! i) VMM_OK,
               HostIrqRegister (the (host_irqs s) ! i) (name s) VMM_OK])
          \<or> (\<exists>e. r = Inl e \<and> (\<forall>res. held (new_actions tr tr') res = 0) \<and>
                (new_actions tr tr' =
                   [HostIrqSetType (the (host_irqs s) ! i) (the (host_type_irqs s) ! i) (Inl e)]
                 \<or> new_actions tr tr' =
                   [HostIrqSetType (the (host_irqs s) ! i) (the (host_type_irqs s) ! i) VMM_OK,
                    HostIrqMarkRouted (the (host_irqs s) ! i) (Inl e)]
                 \<or> new_actions tr tr' =
                   [HostIrqSetType (the (host_irqs s) ! i) (the (host_type_irqs s) ! i) VMM_OK,
                    HostIrqMarkRouted (the (host_irqs s) ! i) VMM_OK,
                    HostIrqRegister (the (host_irqs s) ! i) (name s) (Inl e),
                    HostIrqUnmarkRouted (the (host_irqs s) ! i)])))
         \<and> (HostIrqSetType (the (host_irqs s) ! i) (the (host_type_irqs s) ! i) VMM_OK
               \<in> set (new_actions tr tr')
             \<longrightarrow> line_type tr' (the (host_irqs s) ! i) = Some (the (host_type_irqs s) ! i))"
proof -
  let ?h = "the (host_irqs s) ! i" and ?t = "the (host_type_irqs s) ! i"
  from probe_register_irq_cases [OF run] show ?thesis
  proof (elim disjE conjE exE)
    assume "r = VMM_OK" "tr' = tr @ register_block ?h ?t (name s)"
    then show ?thesis by (simp add: register_block_def line_type_append)
  next
    fix e st
    assume a: "r = Inl e" "tr' = tr @ failed_register ?h ?t (name s) st e"
    then have "\<forall>res. held (new_actions tr tr') res = 0" by (simp add: held_register_block)
    with a show ?thesis by (cases st) (simp_all add: line_type_append)
  qed
qed

theorem probe_register_irq_steps_witness:
  "probe_register_irq env_mark_routed_fails example_state 0 [] =
     (Inl (VMM_EOTHER 16), [HostIrqSetType 40 4 VMM_OK, HostIrqMarkRouted 40 (Inl (VMM_EOTHER 16))]) \<and>
   HostIrqSetType 40 4 VMM_OK
     \<in> set (new_actions [] [HostIrqSetType 40 4 VMM_OK, HostIrqMarkRouted 40 (Inl (VMM_EOTHER 16))]) \<and>
   line_type [HostIrqSetType 40 4 VMM_OK, HostIrqMarkRouted 40 (Inl (VMM_EOTHER 16))] 40 = Some 4"
proof -
  have run: "probe_register_irq env_mark_routed_fails example_state 0 [] =
     (Inl (VMM_EOTHER 16), [HostIrqSetType 40 4 VMM_OK, HostIrqMarkRouted 40 (Inl (VMM_EOTHER 16))])"
    by (simp add: probe_register_irq_def env_mark_routed_fails_def example_env_def
          example_state_def Let_def)
  have h: "the (host_irqs example_state) ! 0 = 40" "the (host_type_irqs example_state) ! 0 = 4"
    by (simp_all add: example_state_def)
  have m: "HostIrqSetType 40 4 VMM_OK
     \<in> set (new_actions [] [HostIrqSetType 40 4 VMM_OK, HostIrqMarkRouted 40 (Inl (VMM_EOTHER 16))])"
    by (simp add: new_actions_def)
  from probe_register_irq_steps [OF run] h m run show ?thesis by simp
qed

text \<open>
  Claim C5 as stated fails: when marking line 40 routed fails, the calls that follow the
  failure are the four frees; line 40, whose trigger type was not set before the probe,
  still has type 4 when the probe has returned.
\<close>
theorem type_set_not_undone:
  "platform_pt_probe env_mark_routed_fails example_guest example_edev [] =
     (Inl (VMM_EOTHER 16), example_edev, mark_failure_trace) \<and>
   mark_failure_trace ! 8 = HostIrqSetType 40 4 VMM_OK \<and>
   mark_failure_trace ! 9 = HostIrqMarkRouted 40 (Inl (VMM_EOTHER 16)) \<and>
   drop 10 mark_failure_trace =
     [VmmFree ObjGuestIrqs, VmmFree ObjHostTypeIrqs, VmmFree ObjHostIrqs, VmmFree ObjState] \<and>
   line_type [] 40 = None \<and>
   line_type mark_failure_trace 40 = Some 4"
  using mark_routed_failure_run by (simp add: mark_failure_trace_def)

subsection \<open>The IOMMU stage\<close>

text \<open>
  Claim C7. In any run of probe: if the lookup of the configured IOMMU device returns no
  device, or returns a device without an IOMMU group, probe returns \<open>VMM_EINVALID\<close>, never
  calls \<^verbatim>\<open>vmm_devdrv_ref_device\<close>, and after the lookup only runs the full teardown of the
  loop (unregister and unmark of every line, frees of the arrays and the state). If the
  domain allocation returns no domain, probe returns \<open>VMM_EFAIL\<close> and its calls after the
  lookup are: reference the device, the failed allocation, drop the reference, the full
  teardown. In these three cases the device is left as it was and nothing remains held.
  If probe succeeds with an IOMMU device name configured, its calls after the loop are the
  lookup, the reference, the allocation, the installation of the fault handler on the
  allocated domain, and the subscription; the attached state holds the device and the
  domain.
\<close>
theorem iommu_stage_outcomes:
  assumes run: "platform_pt_probe env g edev tr = (r, edev', tr')"
  shows
    "(BusFindDeviceByName dname None \<in> set (new_actions tr tr') \<longrightarrow>
        r = Inl VMM_EINVALID \<and> edev' = edev \<and>
        (\<forall>d. DevdrvRefDevice d \<notin> set (new_actions tr tr')) \<and>
        new_actions tr tr' =
          setup_trace (node edev) (fst (probe_name g edev)) (cfg_irq_count (node edev))
          @ [DevtreeReadString ''iommu-device'' (Some dname), BusFindDeviceByName dname None]
          @ cleanup_suffix (node edev) (cfg_irq_count (node edev)) \<and>
        (\<forall>res. held (new_actions tr tr') res = 0)) \<and>
     (BusFindDeviceByName dname (Some dv) \<in> set (new_actions tr tr') \<and> iommu_group dv = None \<longrightarrow>
        r = Inl VMM_EINVALID \<and> edev' = edev \<and>
        (\<forall>d. DevdrvRefDevice d \<notin> set (new_actions tr tr')) \<and>
        new_actions tr tr' =
          setup_trace (node edev) (fst (probe_name g edev)) (cfg_irq_count (node edev))
          @ [DevtreeReadString ''iommu-device'' (Some dname), BusFindDeviceByName dname (Some dv)]
          @ cleanup_suffix (node edev) (cfg_irq_count (node edev)) \<and>
        (\<forall>res. held (new_actions tr tr') res = 0)) \<and>
     (IommuDomainAlloc grp None \<in> set (new_actions tr tr') \<longrightarrow>
        r = Inl VMM_EFAIL \<and> edev' = edev \<and>
        (\<exists>dn d. iommu_group d = Some grp \<and>
           new_actions tr tr' =
             setup_trace (node edev) (fst (probe_name g edev)) (cfg_irq_count (node edev))
             @ [DevtreeReadString ''iommu-device'' (Some dn), BusFindDeviceByName dn (Some d),
                DevdrvRefDevice (dev_id d), IommuDomainAlloc grp None, DevdrvDrefDevice (dev_id d)]
             @ cleanup_suffix (node edev) (cfg_irq_count (node edev))) \<and>
        (\<forall>res. held (new_actions tr tr') res = 0)) \<and>
     (r = VMM_OK \<and> read_string (node edev) ''iommu-device'' = Some dname \<longrightarrow>
        (\<exists>d grp' dmn sf. edev' = edev\<lparr>priv := Some sf\<rparr> \<and> dev sf = Some d \<and> dom_p sf = Some dmn \<and>
           new_actions tr tr' =
             setup_trace (node edev) (fst (probe_name g edev)) (cfg_irq_count (node edev))
             @ [DevtreeReadString ''iommu-device'' (Some dname), BusFindDeviceByName dname (Some d),
                DevdrvRefDevice (dev_id d), IommuDomainAlloc grp' (Some dmn),
                IommuSetFaultHandler dmn, GuestAspaceRegisterClient 0 VMM_OK]))"
    (is "(?H1 \<longrightarrow> ?B1) \<and> (?H2 \<longrightarrow> ?B2) \<and> (?H3 \<longrightarrow> ?B3) \<and> (?H4 \<longrightarrow> ?B4)")
proof -
  have c1: "?H1 \<longrightarrow> ?B1"
  proof
    assume nf: ?H1
    from device_not_found_outcome [OF run nf]
    have a: "r = Inl VMM_EINVALID" "edev' = edev"
      "\<forall>d. DevdrvRefDevice d \<notin> set (new_actions tr tr')"
      "new_actions tr tr' =
         setup_trace (node edev) (fst (probe_name g edev)) (cfg_irq_count (node edev))
         @ [DevtreeReadString ''iommu-device'' (Some dname), BusFindDeviceByName dname None]
         @ cleanup_suffix (node edev) (cfg_irq_count (node edev))"
      by blast+
    from failed_probe_holds_nothing [OF run [unfolded a(1)]]
    have "\<forall>res. held (new_actions tr tr') res = 0" by auto
    with a show ?B1 by blast
  qed
  have c2: "?H2 \<longrightarrow> ?B2"
  proof
    assume ?H2
    then have fd: "BusFindDeviceByName dname (Some dv) \<in> set (new_actions tr tr')"
      and ng: "iommu_group dv = None"
      by blast+
    from no_group_outcome [OF run fd ng]
    have a: "r = Inl VMM_EINVALID" "edev' = edev"
      "\<forall>d. DevdrvRefDevice d \<notin> set (new_actions tr tr')"
      "new_actions tr tr' =
         setup_trace (node edev) (fst (probe_name g edev)) (cfg_irq_count (node edev))
         @ [DevtreeReadString ''iommu-device'' (Some dname), BusFindDeviceByName dname (Some dv)]
         @ cleanup_suffix (node edev) (cfg_irq_count (node edev))"
      by blast+
    from failed_probe_holds_nothing [OF run [unfolded a(1)]]
    have "\<forall>res. held (new_actions tr tr') res = 0" by auto
    with a show ?B2 by blast
  qed
  have c3: "?H3 \<longrightarrow> ?B3"
  proof
    assume nd: ?H3
    from no_domain_outcome [OF run nd]
    have a: "r = Inl VMM_EFAIL" "edev' = edev"
      "\<exists>dn d. iommu_group d = Some grp \<and>
         new_actions tr tr' =
           setup_trace (node edev) (fst (probe_name g edev)) (cfg_irq_count (node edev))
           @ [DevtreeReadString ''iommu-device'' (Some dn), BusFindDeviceByName dn (Some d),
              DevdrvRefDevice (dev_id d), IommuDomainAlloc grp None, DevdrvDrefDevice (dev_id d)]
           @ cleanup_suffix (node edev) (cfg_irq_count (node edev))"
      by blast+
    from failed_probe_holds_nothing [OF run [unfolded a(1)]]
    have "\<forall>res. held (new_actions tr tr') res = 0" by auto
    with a show ?B3 by blast
  qed
  have c4: "?H4 \<longrightarrow> ?B4"
  proof
    assume ?H4
    then have r: "r = VMM_OK" and cfg: "read_string (node edev) ''iommu-device'' = Some dname"
      by blast+
    from iommu_success_outcome [OF run [unfolded r] cfg] show ?B4 by blast
  qed
  show ?thesis by (rule conjI [OF c1 conjI [OF c2 conjI [OF c3 c4]]])
qed

theorem iommu_stage_outcomes_witness:
  "platform_pt_probe env_no_device example_guest example_edev [] =
     (Inl VMM_EINVALID, example_edev,
      example_both_lines @
      [DevtreeReadString ''iommu-device'' (Some ''smmu0''), BusFindDeviceByName ''smmu0'' None]
      @ example_teardown) \<and>
   (\<forall>d. DevdrvRefDevice d \<notin> set (new_actions []
      (example_both_lines @
       [DevtreeReadString ''iommu-device'' (Some ''smmu0''), BusFindDeviceByName ''smmu0'' None]
       @ example_teardown))) \<and>
   platform_pt_probe env_no_group example_guest example_edev [] =
     (Inl VMM_EINVALID, example_edev,
      example_both_lines @
      [DevtreeReadString ''iommu-device'' (Some ''smmu0''),
       BusFindDeviceByName ''smmu0'' (Some \<lparr>dev_id = 7, iommu_group = None\<rparr>)]
      @ example_teardown) \<and>
   (\<forall>d. DevdrvRefDevice d \<notin> set (new_actions []
      (example_both_lines @
       [DevtreeReadString ''iommu-device'' (Some ''smmu0''),
        BusFindDeviceByName ''smmu0'' (Some \<lparr>dev_id = 7, iommu_group = None\<rparr>)]
       @ example_teardown))) \<and>
   platform_pt_probe env_no_domain example_guest example_edev [] =
     (Inl VMM_EFAIL, example_edev,
      example_both_lines @
      [DevtreeReadString ''iommu-device'' (Some ''smmu0''),
       BusFindDeviceByName ''smmu0'' (Some \<lparr>dev_id = 7, iommu_group = Some 3\<rparr>),
       DevdrvRefDevice 7, IommuDomainAlloc 3 None, DevdrvDrefDevice 7]
      @ example_teardown) \<and>
   (\<forall>res. held (new_actions []
      (example_both_lines @
       [DevtreeReadString ''iommu-device'' (Some ''smmu0''),
        BusFindDeviceByName ''smmu0'' (Some \<lparr>dev_id = 7, iommu_group = Some 3\<rparr>),
        DevdrvRefDevice 7, IommuDomainAlloc 3 None, DevdrvDrefDevice 7]
       @ example_teardown)) res = 0) \<and>
   fst (platform_pt_probe example_env example_guest example_edev []) = VMM_OK \<and>
   read_string (node example_edev) ''iommu-device'' = Some ''smmu0'' \<and>
   (\<exists>d dmn sf. fst (snd (platform_pt_probe example_env example_guest example_edev [])) =
                 example_edev\<lparr>priv := Some sf\<rparr> \<and> dev sf = Some d \<and> dom_p sf = Some dmn \<and>
               IommuSetFaultHandler dmn
                 \<in> set (new_actions [] (snd (snd (platform_pt_probe example_env example_guest
                                                     example_edev [])))))"
proof -
  have m1: "BusFindDeviceByName ''smmu0'' None \<in> set (new_actions []
      (example_both_lines @
       [DevtreeReadString ''iommu-device'' (Some ''smmu0''), BusFindDeviceByName ''smmu0'' None]
       @ example_teardown))"
    by (simp add: new_actions_def)
  have m2: "BusFindDeviceByName ''smmu0'' (Some \<lparr>dev_id = 7, iommu_group = None\<rparr>)
      \<in> set (new_actions []
      (example_both_lines @
       [DevtreeReadString ''iommu-device'' (Some ''smmu0''),
        BusFindDeviceByName ''smmu0'' (Some \<lparr>dev_id = 7, iommu_group = None\<rparr>)]
       @ example_teardown))"
    by (simp add: new_actions_def)
  have g2: "iommu_group \<lparr>dev_id = 7, iommu_group = None\<rparr> = None" by simp
  have m3: "IommuDomainAlloc 3 None \<in> set (new_actions []
      (example_both_lines @
       [DevtreeReadString ''iommu-device'' (Some ''smmu0''),
        BusFindDeviceByName ''smmu0'' (Some \<lparr>dev_id = 7, iommu_group = Some 3\<rparr>),
        DevdrvRefDevice 7, IommuDomainAlloc 3 None, DevdrvDrefDevice 7]
       @ example_teardown))"
    by (simp add: new_actions_def)
  have c4: "read_string (node example_edev) ''iommu-device'' = Some ''smmu0''"
    by (simp add: example_edev_def example_node_def)
  have r4: "platform_pt_probe example_env example_guest example_edev [] =
      (VMM_OK, fst (snd (platform_pt_probe example_env example_guest example_edev [])),
       snd (snd (platform_pt_probe example_env example_guest example_edev [])))"
    using example_probe_run by simp
  from iommu_stage_outcomes [OF no_device_run, of "''smmu0''"] m1
  have w1: "\<forall>d. DevdrvRefDevice d \<notin> set (new_actions []
      (example_both_lines @
       [DevtreeReadString ''iommu-device'' (Some ''smmu0''), BusFindDeviceByName ''smmu0'' None]
       @ example_teardown))"
    by blast
  from iommu_stage_outcomes [OF no_group_run, of "''smmu0''" "\<lparr>dev_id = 7, iommu_group = None\<rparr>"] m2 g2
  have w2: "\<forall>d. DevdrvRefDevice d \<notin> set (new_actions []
      (example_both_lines @
       [DevtreeReadString ''iommu-device'' (Some ''smmu0''),
        BusFindDeviceByName ''smmu0'' (Some \<lparr>dev_id = 7, iommu_group = None\<rparr>)]
       @ example_teardown))"
    by blast
  from iommu_stage_outcomes [OF no_domain_run, of _ _ 3] m3
  have w3: "\<forall>res. held (new_actions []
      (example_both_lines @
       [DevtreeReadString ''iommu-device'' (Some ''smmu0''),
        BusFindDeviceByName ''smmu0'' (Some \<lparr>dev_id = 7, iommu_group = Some 3\<rparr>),
        DevdrvRefDevice 7, IommuDomainAlloc 3 None, DevdrvDrefDevice 7]
       @ example_teardown)) res = 0"
    by blast
  from iommu_stage_outcomes [OF r4, of "''smmu0''"] c4
  obtain d grp' dmn sf where
    "fst (snd (platform_pt_probe example_env example_guest example_edev [])) =
       example_edev\<lparr>priv := Some sf\<rparr>" "dev sf = Some d" "dom_p sf = Some dmn"
    "new_actions [] (snd (snd (platform_pt_probe example_env example_guest example_edev []))) =
       setup_trace (node example_edev) (fst (probe_name example_guest example_edev))
         (cfg_irq_count (node example_edev))
       @ [DevtreeReadString ''iommu-device'' (Some ''smmu0''), BusFindDeviceByName ''smmu0'' (Some d),
          DevdrvRefDevice (dev_id d), IommuDomainAlloc grp' (Some dmn),
          IommuSetFaultHandler dmn, GuestAspaceRegisterClient 0 VMM_OK]"
    by blast
  then have w4: "\<exists>d dmn sf. fst (snd (platform_pt_probe example_env example_guest example_edev [])) =
                 example_edev\<lparr>priv := Some sf\<rparr> \<and> dev sf = Some d \<and> dom_p sf = Some dmn \<and>
               IommuSetFaultHandler dmn
                 \<in> set (new_actions [] (snd (snd (platform_pt_probe example_env example_guest
                                                     example_edev []))))"
    by auto
  from example_probe_run have ok: "fst (platform_pt_probe example_env example_guest example_edev []) = VMM_OK"
    by simp
  from no_device_run w1 no_group_run w2 no_domain_run w3 ok c4 w4 show ?thesis
    by (intro conjI)
qed

subsection \<open>The name of the state\<close>

lemma probe_name_fits:
  assumes "length (guest_name g) + 1 + length (node_name (node edev)) < name_size"
  shows "probe_name g edev =
           (guest_name g @ ''/'' @ node_name (node edev),
            length (guest_name g) + 1 + length (node_name (node edev)))"
  using assms by (simp add: probe_name_def strlcpy_def strlcat_def name_size_def)

lemma probe_name_overflow_detected:
  assumes "node_name (node edev) \<noteq> [] \<or> length (guest_name g) + 1 < name_size"
  shows "(name_size \<le> snd (probe_name g edev)) =
         (name_size \<le> length (guest_name g) + 1 + length (node_name (node edev)))"
  using assms
  by (cases "node_name (node edev)")
     (auto simp: probe_name_def strlcpy_def strlcat_def name_size_def min_def)

lemma probe_overflow_before_arrays:
  assumes "name_size \<le> snd (probe_name g edev)" "vmm_zalloc env tr ObjState"
  shows "platform_pt_probe env g edev tr =
           (Inl VMM_EOVERFLOW, edev, tr @ [VmmZalloc ObjState True, VmmFree ObjState])"
  using assms
  by (cases "probe_name g edev")
     (simp add: platform_pt_probe_def platform_pt_probe_freestate_fail_def Let_def)

lemma example_probe_name: "probe_name example_guest example_edev = (''g0/eth0'', 7)"
  by (simp add: probe_name_def strlcpy_def strlcat_def name_size_def zeroed_state_def
        example_guest_def example_edev_def example_node_def)

text \<open>
  Claim C6 at the failing input: a guest name of 63 characters and a device node with the
  empty name. The concatenation "<guest>/" has 64 characters and does not fit the 64-byte
  buffer, yet the last \<^verbatim>\<open>strlcat\<close> returns 63 (the truncated buffer plus nothing), probe
  does not fail, and the attached state is named by the bare guest name, without the "/".
\<close>
theorem long_guest_name_not_rejected:
  "length (guest_name long_guest @ ''/'' @ node_name unnamed_node) = name_size \<and>
   probe_name long_guest \<lparr>node = unnamed_node, priv = None\<rparr> = (replicate 63 CHR ''g'', 63) \<and>
   platform_pt_probe example_env long_guest \<lparr>node = unnamed_node, priv = None\<rparr> [] =
     (VMM_OK,
      \<lparr>node = unnamed_node,
       priv = Some \<lparr>name = replicate 63 CHR ''g'', guest = 2, irq_count = 0,
                    host_irqs = None, host_type_irqs = None, guest_irqs = None,
                    dev = None, dom_p = None, nb_notifier_call = True, nb_priority = 0\<rparr>\<rparr>,
      [VmmZalloc ObjState True, DevtreeAttrlen ''host-interrupts'' 0,
       DevtreeReadString ''iommu-device'' None, GuestAspaceRegisterClient 0 VMM_OK])"
  using long_guest_name long_guest_run
  by (simp add: long_guest_def unnamed_node_def name_size_def)

subsection \<open>A successful probe, and the remove that follows it\<close>

lemma platform_pt_remove_attached:
  assumes "priv edev = Some s" "table_ready nd s (cfg_irq_count nd)"
  shows "platform_pt_remove edev tr =
           (VMM_OK, edev\<lparr>priv := None\<rparr>,
            tr @ [GuestAspaceUnregisterClient] @ iommu_release s @ cleanup_suffix nd (cfg_irq_count nd))"
proof -
  from assms(2) have n: "unat (irq_count s) = cfg_irq_count nd" by (simp add: table_ready_def)
  from assms(2) have m: "map (\<lambda>j. [HostIrqUnregister (the (host_irqs s) ! j),
                              HostIrqUnmarkRouted (the (host_irqs s) ! j)]) [0..<cfg_irq_count nd]
                   = map (unregister_block nd) [0..<cfg_irq_count nd]"
    by (simp add: table_ready_def unregister_block_def)
  have u: "unregister_irqs s (cfg_irq_count nd) 0 tr0 =
             tr0 @ concat (map (unregister_block nd) [0..<cfg_irq_count nd])" for tr0
    by (simp only: unregister_irqs_eq m)
  let ?tr3 = "tr @ [GuestAspaceUnregisterClient] @ iommu_release s"
  have "platform_pt_remove edev tr =
          (VMM_OK, edev\<lparr>priv := None\<rparr>,
           free_if_set (host_irqs s) ObjHostIrqs
             (free_if_set (host_type_irqs s) ObjHostTypeIrqs
                (free_if_set (guest_irqs s) ObjGuestIrqs
                   (?tr3 @ concat (map (unregister_block nd) [0..<cfg_irq_count nd]))))
           @ [VmmFree ObjState])"
    using assms(1)
    by (simp add: platform_pt_remove_def Let_def n u iommu_release_def split: option.splits)
  also have "\<dots> = (VMM_OK, edev\<lparr>priv := None\<rparr>,
       (?tr3 @ concat (map (unregister_block nd) [0..<cfg_irq_count nd])) @ free_suffix nd)"
    by (simp only: table_ready_frees [OF assms(2)])
  finally show ?thesis by (simp add: cleanup_suffix_def)
qed

lemma iommu_release_cfg:
  "dev s = iommu_dev c \<Longrightarrow> dom_p s = iommu_dom c \<Longrightarrow> iommu_release s = iommu_undo c"
  by (cases c) (simp_all add: iommu_release_def)

lemma sum_list_indicator:
  "sum_list (map (\<lambda>x. if P x then (1::int) else 0) xs) = int (length (filter P xs))"
  by (induction xs) simp_all

lemma held_setup_lines:
  "held (setup_trace nd nm k) (HandlerOn h) = int (length (filter (\<lambda>i. cfg_host_irq nd i = h) [0..<k]))"
  "held (setup_trace nd nm k) (RoutedLine h) = int (length (filter (\<lambda>i. cfg_host_irq nd i = h) [0..<k]))"
proof -
  have a: "held (irq_block nd nm i) (HandlerOn h) = (if cfg_host_irq nd i = h then 1 else 0)" for i
    by (simp add: irq_block_def read_block_def register_block_def held1_def)
  have b: "held (irq_block nd nm i) (RoutedLine h) = (if cfg_host_irq nd i = h then 1 else 0)" for i
    by (simp add: irq_block_def read_block_def register_block_def held1_def)
  have c: "held (alloc_prefix nd) (HandlerOn h) = 0" "held (alloc_prefix nd) (RoutedLine h) = 0"
    by (simp_all add: alloc_prefix_def held1_def)
  show "held (setup_trace nd nm k) (HandlerOn h) = int (length (filter (\<lambda>i. cfg_host_irq nd i = h) [0..<k]))"
    by (simp add: setup_trace_def held_concat_map a c sum_list_indicator)
  show "held (setup_trace nd nm k) (RoutedLine h) = int (length (filter (\<lambda>i. cfg_host_irq nd i = h) [0..<k]))"
    by (simp add: setup_trace_def held_concat_map b c sum_list_indicator)
qed


text \<open>
  After a successful probe the attached state has well-formed arrays of the node's
  interrupt count, carries the constructed name and the guest, and lists the configured
  host lines; and the probe holds, for every host line \<open>h\<close>, as many handler registrations
  and as many routed claims as there are configured indices with that host line (so \<open>N\<close>
  in total).
\<close>
theorem successful_probe_registers_configured_lines:
  assumes probe: "platform_pt_probe env g edev tr = (VMM_OK, edev', tr')"
  shows "\<exists>sf. edev' = edev\<lparr>priv := Some sf\<rparr> \<and> arrays_ok sf \<and>
           unat (irq_count sf) = cfg_irq_count (node edev) \<and>
           name sf = fst (probe_name g edev) \<and> guest sf = guest_id g \<and>
           (\<forall>i < cfg_irq_count (node edev). the (host_irqs sf) ! i = cfg_host_irq (node edev) i) \<and>
           (\<forall>h. held (new_actions tr tr') (HandlerOn h) =
                  int (length (filter (\<lambda>i. cfg_host_irq (node edev) i = h)
                                 [0..<cfg_irq_count (node edev)])) \<and>
                held (new_actions tr tr') (RoutedLine h) =
                  int (length (filter (\<lambda>i. cfg_host_irq (node edev) i = h)
                                 [0..<cfg_irq_count (node edev)])))"
  using probe
proof (cases rule: platform_pt_probe_cases)
  case (success c sf)
  have i: "held (iommu_actions c) (HandlerOn h) = 0" "held (iommu_actions c) (RoutedLine h) = 0" for h
    by (cases c; simp add: held1_def)+
  have "\<forall>h. held (new_actions tr tr') (HandlerOn h) =
                  int (length (filter (\<lambda>i. cfg_host_irq (node edev) i = h)
                                 [0..<cfg_irq_count (node edev)])) \<and>
                held (new_actions tr tr') (RoutedLine h) =
                  int (length (filter (\<lambda>i. cfg_host_irq (node edev) i = h)
                                 [0..<cfg_irq_count (node edev)]))"
    using success by (simp add: held_setup_lines i held1_def)
  with success show ?thesis by (auto simp: table_ready_def)
qed simp_all

theorem successful_probe_registers_configured_lines_witness:
  "fst (platform_pt_probe example_env example_guest example_edev []) = VMM_OK \<and>
   held (new_actions [] (snd (snd (platform_pt_probe example_env example_guest example_edev []))))
     (HandlerOn 40) = 1 \<and>
   held (new_actions [] (snd (snd (platform_pt_probe example_env example_guest example_edev []))))
     (RoutedLine 41) = 1 \<and>
   held (new_actions [] (snd (snd (platform_pt_probe example_env example_guest example_edev []))))
     (HandlerOn 42) = 0"
proof -
  have ok: "fst (platform_pt_probe example_env example_guest example_edev []) = VMM_OK"
    using example_probe_run by simp
  then have run: "platform_pt_probe example_env example_guest example_edev [] =
      (VMM_OK, fst (snd (platform_pt_probe example_env example_guest example_edev [])),
       snd (snd (platform_pt_probe example_env example_guest example_edev [])))"
    by (metis prod.collapse)
  have n: "cfg_irq_count (node example_edev) = 2"
    by (simp add: cfg_irq_count_def example_edev_def example_node_def)
  have c: "cfg_host_irq (node example_edev) 0 = 40" "cfg_host_irq (node example_edev) (Suc 0) = 41"
    by (simp_all add: cfg_host_irq_def example_edev_def example_node_def)
  from successful_probe_registers_configured_lines [OF run] ok show ?thesis
    by (auto simp: n c upt_0_2)
qed

text \<open>
  A successful probe followed by \<^verbatim>\<open>platform_pt_remove\<close> on the same device: remove
  returns \<open>VMM_OK\<close>, clears the attachment, and the two calls together leave nothing held,
  whatever the subsystems answered.
\<close>
theorem probe_then_remove_holds_nothing:
  assumes probe: "platform_pt_probe env g edev tr = (VMM_OK, edev', tr')"
    and remove: "platform_pt_remove edev' tr' = (r2, edev'', tr'')"
  shows "r2 = VMM_OK \<and> priv edev'' = None \<and> (\<forall>res. held (new_actions tr tr'') res = 0)"
  using probe
proof (cases rule: platform_pt_probe_cases)
  case (success c sf)
  let ?nd = "node edev" and ?N = "cfg_irq_count (node edev)"
  from success have p: "priv edev' = Some sf"
    and rdy: "table_ready ?nd sf ?N"
    and dd: "dev sf = iommu_dev c" "dom_p sf = iommu_dom c"
    and tr': "tr' = tr @ setup_trace ?nd (fst (probe_name g edev)) ?N
                @ iommu_actions c @ [GuestAspaceRegisterClient 0 VMM_OK]"
    by simp_all
  from platform_pt_remove_attached [OF p rdy, of tr'] remove
  have r: "r2 = VMM_OK" "edev'' = edev'\<lparr>priv := None\<rparr>"
    "tr'' = tr' @ [GuestAspaceUnregisterClient] @ iommu_release sf @ cleanup_suffix ?nd ?N"
    by simp_all
  from dd have rel: "iommu_release sf = iommu_undo c" by (rule iommu_release_cfg)
  have "held (new_actions tr tr'') res = 0" for res
    using held_setup_cleanup [of ?nd "fst (probe_name g edev)" ?N res] held_iommu_balance [of c res]
    by (simp add: r(3) tr' rel held1_def)
  with r show ?thesis by simp
qed simp_all

theorem probe_then_remove_holds_nothing_witness:
  "fst (platform_pt_probe example_env example_guest example_edev []) = VMM_OK \<and>
   fst (platform_pt_remove
          (fst (snd (platform_pt_probe example_env example_guest example_edev [])))
          (snd (snd (platform_pt_probe example_env example_guest example_edev [])))) = VMM_OK \<and>
   (\<forall>res. held (new_actions []
      (snd (snd (platform_pt_remove
          (fst (snd (platform_pt_probe example_env example_guest example_edev [])))
          (snd (snd (platform_pt_probe example_env example_guest example_edev []))))))) res = 0)"
proof -
  have ok: "fst (platform_pt_probe example_env example_guest example_edev []) = VMM_OK"
    using example_probe_run by simp
  then have run: "platform_pt_probe example_env example_guest example_edev [] =
      (VMM_OK, fst (snd (platform_pt_probe example_env example_guest example_edev [])),
       snd (snd (platform_pt_probe example_env example_guest example_edev [])))"
    by (metis prod.collapse)
  have rem: "platform_pt_remove
          (fst (snd (platform_pt_probe example_env example_guest example_edev [])))
          (snd (snd (platform_pt_probe example_env example_guest example_edev []))) =
      (fst (platform_pt_remove
          (fst (snd (platform_pt_probe example_env example_guest example_edev [])))
          (snd (snd (platform_pt_probe example_env example_guest example_edev [])))),
       fst (snd (platform_pt_remove
          (fst (snd (platform_pt_probe example_env example_guest example_edev [])))
          (snd (snd (platform_pt_probe example_env example_guest example_edev []))))),
       snd (snd (platform_pt_remove
          (fst (snd (platform_pt_probe example_env example_guest example_edev [])))
          (snd (snd (platform_pt_probe example_env example_guest example_edev []))))))"
    by simp
  from probe_then_remove_holds_nothing [OF run rem] ok
  show ?thesis by blast
qed

subsection \<open>Name construction where the check works\<close>

text \<open>
  When the concatenation of guest name, "/" and node name fits the buffer, it is the name
  of the state. When it does not fit, and the node name is not empty or the guest name has
  fewer than 63 characters, probe returns \<open>VMM_EOVERFLOW\<close> after allocating and freeing the
  state only: no array is allocated.
\<close>
theorem name_construction:
  "(length (guest_name g) + 1 + length (node_name (node edev)) < name_size \<longrightarrow>
      fst (probe_name g edev) = guest_name g @ ''/'' @ node_name (node edev) \<and>
      snd (probe_name g edev) < name_size) \<and>
   ((node_name (node edev) \<noteq> [] \<or> length (guest_name g) + 1 < name_size) \<and>
      name_size \<le> length (guest_name g) + 1 + length (node_name (node edev)) \<and>
      vmm_zalloc env tr ObjState \<longrightarrow>
      platform_pt_probe env g edev tr =
        (Inl VMM_EOVERFLOW, edev, tr @ [VmmZalloc ObjState True, VmmFree ObjState]))"
proof (intro conjI impI)
  assume a: "length (guest_name g) + 1 + length (node_name (node edev)) < name_size"
  from probe_name_fits [OF a] a
  show "fst (probe_name g edev) = guest_name g @ ''/'' @ node_name (node edev)"
    and "snd (probe_name g edev) < name_size"
    by simp_all
next
  assume a: "(node_name (node edev) \<noteq> [] \<or> length (guest_name g) + 1 < name_size) \<and>
      name_size \<le> length (guest_name g) + 1 + length (node_name (node edev)) \<and>
      vmm_zalloc env tr ObjState"
  then have "name_size \<le> snd (probe_name g edev)"
    using probe_name_overflow_detected [of edev g] by blast
  with a show "platform_pt_probe env g edev tr =
        (Inl VMM_EOVERFLOW, edev, tr @ [VmmZalloc ObjState True, VmmFree ObjState])"
    by (intro probe_overflow_before_arrays) simp_all
qed

theorem name_construction_witness:
  "length (guest_name example_guest) + 1 + length (node_name (node example_edev)) < name_size \<and>
   fst (probe_name example_guest example_edev) = ''g0/eth0'' \<and>
   node_name (node example_edev) \<noteq> [] \<and>
   name_size \<le> length (guest_name long_guest) + 1 + length (node_name (node example_edev)) \<and>
   vmm_zalloc example_env [] ObjState \<and>
   platform_pt_probe example_env long_guest example_edev [] =
     (Inl VMM_EOVERFLOW, example_edev, [VmmZalloc ObjState True, VmmFree ObjState])"
proof -
  have a: "length (guest_name example_guest) + 1 + length (node_name (node example_edev)) < name_size"
    by (simp add: example_guest_def example_edev_def example_node_def name_size_def)
  have b: "node_name (node example_edev) \<noteq> []"
    "name_size \<le> length (guest_name long_guest) + 1 + length (node_name (node example_edev))"
    "vmm_zalloc example_env [] ObjState"
    by (simp_all add: long_guest_def example_edev_def example_node_def name_size_def example_env_def)
  from name_construction [of example_guest example_edev] a
  have c: "fst (probe_name example_guest example_edev) = ''g0/eth0''"
    by (simp add: example_guest_def example_edev_def example_node_def)
  from name_construction [of long_guest example_edev example_env "[]"] b
  have d: "platform_pt_probe example_env long_guest example_edev [] =
     (Inl VMM_EOVERFLOW, example_edev, [VmmZalloc ObjState True, VmmFree ObjState])"
    by simp
  from a b c d show ?thesis by (intro conjI)
qed

end
